theory Spec2Isabelle
  imports Main
begin

section \<open>Persistent entities\<close>

text \<open>
  The rows of the tables the service reads and writes through the ORM. Only the columns
  the service touches are kept. A nullable column is an \<open>option\<close>; dates are milliseconds.
\<close>

datatype account_status = Disconnected | Connecting | Connected | Reconnecting | Error

datatype campaign_status = Draft | Running | Completed | Paused | Cancelled

datatype message_status = Pending | Sent | Failed | Delivered | Read

record account =
  acc_name :: string
  acc_phone :: "string option"
  acc_status :: account_status
  qr_code :: "string option"
  last_connected :: "int option"

record 'k campaign =
  account_id :: 'k
  cmp_status :: campaign_status
  delay_seconds :: int
  sent_count :: nat
  failed_count :: nat
  completed_at :: "int option"

record campaign_message =
  msg_id :: nat
  campaign_id :: nat
  msg_phone :: string
  message_text :: "string option"
  media_path :: "string option"
  msg_status :: message_status
  error_message :: "string option"
  sent_at :: "int option"

record 'k activity =
  log_account :: 'k
  action :: string
  description :: string

section \<open>The service and its surroundings\<close>

text \<open>
  One record holds everything a method of \<open>WhatsAppService\<close> can change: the three maps
  of the object (\<open>sessions\<close>, \<open>retryCount\<close>, \<open>lastConnectionTime\<close>), the tables, and a
  log of the calls made to the outside: sockets created by \<open>makeWASocket\<close> (\<open>opened\<close>,
  handles are numbered from \<open>next_sock\<close>), sockets on which \<open>logout()\<close> was called
  (\<open>logout_calls\<close>), and the \<open>setTimeout\<close> calls of \<open>scheduleReconnect\<close>
  (\<open>timers\<close>: delay in ms, account, close reason handed to the callback).
  Account identifiers have the type \<open>'k\<close>; a JavaScript \<open>Map\<close> is a partial function.
  The accounts table is the list of its rows with their ids, so that the constraints
  the schema puts on it can be checked: \<open>phone\<close> is \<open>UNIQUE\<close>, and
  \<open>activity_logs.account_id\<close> references \<open>accounts.id\<close>. A write that violates one of
  the two throws; every other write succeeds.
\<close>

record 'k world =
  sessions :: "'k \<rightharpoonup> nat"
  retryCount :: "'k \<rightharpoonup> nat"
  lastConnectionTime :: "'k \<rightharpoonup> int"
  account_rows :: "('k \<times> account) list"
  campaigns :: "nat \<rightharpoonup> 'k campaign"
  campaign_messages :: "campaign_message list"
  activity_log :: "'k activity list"
  next_sock :: nat
  opened :: "(nat \<times> 'k) list"
  logout_calls :: "nat list"
  timers :: "(int \<times> 'k \<times> int option) list"

text \<open>\<open>models.Account.findByPk(id)\<close>: the row with that id, if there is one.\<close>

definition accounts :: "'k world \<Rightarrow> 'k \<rightharpoonup> account" where
  "accounts w = map_of (account_rows w)"

text \<open>\<open>models.Account.update(fields, {where: {id}})\<close>: no row, no change.\<close>

definition Account_update :: "'k \<Rightarrow> (account \<Rightarrow> account) \<Rightarrow> 'k world \<Rightarrow> 'k world" where
  "Account_update accountId f w =
     w\<lparr>account_rows :=
          map (\<lambda>(k, row). if k = accountId then (k, f row) else (k, row)) (account_rows w)\<rparr>"

text \<open>
  The two constraint violations. An update that sets \<open>phone\<close> of an existing row throws when
  another row already holds that (non-null) phone; an insert into \<open>activity_logs\<close> throws
  when no account row has the id.
\<close>

datatype db_error = UniqueViolation | ForeignKeyViolation

definition phone_taken :: "'k world \<Rightarrow> 'k \<Rightarrow> string option \<Rightarrow> bool" where
  "phone_taken w accountId new_phone =
     (case new_phone of
        None \<Rightarrow> False
      | Some p \<Rightarrow>
          accounts w accountId \<noteq> None \<and>
          list_ex (\<lambda>(k, row). k \<noteq> accountId \<and> acc_phone row = Some p) (account_rows w))"

definition ActivityLog_create ::
  "'k \<Rightarrow> string \<Rightarrow> string \<Rightarrow> 'k world \<Rightarrow> db_error + 'k world" where
  "ActivityLog_create accountId act descr w =
     (if accounts w accountId = None then Inl ForeignKeyViolation
      else Inr (w\<lparr>activity_log := activity_log w @
                  [\<lparr>log_account = accountId, action = act, description = descr\<rparr>]\<rparr>))"

section \<open>Reconnection with backoff\<close>

text \<open>
  \<open>scheduleReconnect\<close>: the counter read is \<open>this.retryCount.get(accountId) || 0\<close>; at
  \<open>maxRetries = 5\<close> the account is marked \<open>error\<close> and the counter deleted; otherwise the
  delay is \<open>Math.min(5000 * Math.pow(3, currentRetries), 300000)\<close>, the counter is
  stored incremented, \<open>reconnecting\<close> is persisted and the timer is set.
\<close>

definition scheduleReconnect :: "'k \<Rightarrow> int option \<Rightarrow> 'k world \<Rightarrow> 'k world" where
  "scheduleReconnect accountId disconnectReason w =
     (let currentRetries = (case retryCount w accountId of None \<Rightarrow> 0 | Some n \<Rightarrow> n);
          maxRetries = 5
      in if currentRetries \<ge> maxRetries then
           (Account_update accountId (\<lambda>row. row\<lparr>acc_status := Error\<rparr>) w)
             \<lparr>retryCount := (retryCount w)(accountId := None)\<rparr>
         else
           let delayMs = min (5000 * 3 ^ currentRetries) 300000;
               w1 = w\<lparr>retryCount := (retryCount w)(accountId \<mapsto> currentRetries + 1)\<rparr>;
               w2 = Account_update accountId (\<lambda>row. row\<lparr>acc_status := Reconnecting\<rparr>) w1
           in w2\<lparr>timers := timers w2 @ [(delayMs, accountId, disconnectReason)]\<rparr>)"


definition persisted_status :: "'k world \<Rightarrow> 'k \<Rightarrow> account_status option" where
  "persisted_status w accountId = map_option acc_status (accounts w accountId)"

section \<open>Connecting\<close>

datatype 'k connect_error =
    RateLimited int 'k
  | AccountNotFound
  | SetupFailed string

definition CONNECTION_COOLDOWN :: int where
  "CONNECTION_COOLDOWN = 30000"

text \<open>
  \<open>lastAttempt && (now - lastAttempt) < this.CONNECTION_COOLDOWN\<close>: a missing entry and
  the number 0 are both falsy. The remaining time is
  \<open>Math.ceil((CONNECTION_COOLDOWN - (now - lastAttempt)) / 1000)\<close>; \<open>rate_limit\<close> returns it
  when the attempt is rejected.
\<close>

definition remainingTime :: "int \<Rightarrow> int \<Rightarrow> int" where
  "remainingTime lastAttempt now = - ((- (CONNECTION_COOLDOWN - (now - lastAttempt))) div 1000)"

definition rate_limit :: "int option \<Rightarrow> int \<Rightarrow> int option" where
  "rate_limit lastAttempt now =
     (case lastAttempt of
        None \<Rightarrow> None
      | Some t \<Rightarrow>
          if t \<noteq> 0 \<and> now - t < CONNECTION_COOLDOWN then Some (remainingTime t now)
          else None)"

text \<open>
  \<open>connectAccount\<close>. \<open>now\<close> is \<open>Date.now()\<close>. \<open>setup\<close> is the message thrown by the
  session set-up of the library (\<open>fs.ensureDir\<close>, \<open>useMultiFileAuthState\<close>,
  \<open>makeWASocket\<close>), \<open>None\<close> when it succeeds. The body of the \<open>try\<close> returns the error
  or the new handle together with the world it reached; the \<open>catch\<close> persists
  \<open>error\<close> and rethrows. The new handle is stored with \<open>this.sessions.set\<close>; the body
  has no statement that logs out or closes a handle already stored. Subscribing the
  event handlers changes nothing here: the events arrive later, as calls of
  \<open>handleConnectionUpdate\<close>.
\<close>

definition connectAccount_try ::
  "string option \<Rightarrow> int \<Rightarrow> 'k \<Rightarrow> 'k world \<Rightarrow> ('k connect_error + nat) \<times> 'k world" where
  "connectAccount_try setup now accountId w =
     (case rate_limit (lastConnectionTime w accountId) now of
        Some remaining \<Rightarrow> (Inl (RateLimited remaining accountId), w)
      | None \<Rightarrow>
          (let w1 = w\<lparr>lastConnectionTime := (lastConnectionTime w)(accountId \<mapsto> now)\<rparr> in
           (case accounts w1 accountId of
              None \<Rightarrow> (Inl AccountNotFound, w1)
            | Some accountData \<Rightarrow>
                (case setup of
                   Some msg \<Rightarrow> (Inl (SetupFailed msg), w1)
                 | None \<Rightarrow>
                     (let sock = next_sock w1;
                          w2 = w1\<lparr>next_sock := Suc sock, opened := opened w1 @ [(sock, accountId)]\<rparr>;
                          w3 = w2\<lparr>sessions := (sessions w2)(accountId \<mapsto> sock)\<rparr>;
                          w4 = Account_update accountId (\<lambda>row. row\<lparr>acc_status := Connecting\<rparr>) w3
                      in (Inr sock, w4))))))"

definition connectAccount ::
  "string option \<Rightarrow> int \<Rightarrow> 'k \<Rightarrow> 'k world \<Rightarrow> ('k connect_error + nat) \<times> 'k world" where
  "connectAccount setup now accountId w =
     (case connectAccount_try setup now accountId w of
        (Inr sock, w') \<Rightarrow> (Inr sock, w')
      | (Inl e, w') \<Rightarrow> (Inl e, Account_update accountId (\<lambda>row. row\<lparr>acc_status := Error\<rparr>) w'))"


text \<open>
  \<open>forceReconnectAccount\<close> logs the registered handle out (errors of \<open>logout\<close> are
  caught) and deletes it before it connects; when \<open>connectAccount\<close> throws, \<open>error\<close> is
  persisted and the error rethrown.
\<close>

definition forceReconnectAccount ::
  "string option \<Rightarrow> int \<Rightarrow> 'k \<Rightarrow> 'k world \<Rightarrow> ('k connect_error + unit) \<times> 'k world" where
  "forceReconnectAccount setup now accountId w =
     (let w1 = (case sessions w accountId of
                  None \<Rightarrow> w
                | Some existingSock \<Rightarrow>
                    w\<lparr>logout_calls := logout_calls w @ [existingSock],
                      sessions := (sessions w)(accountId := None)\<rparr>);
          w2 = w1\<lparr>retryCount := (retryCount w1)(accountId := None),
                  lastConnectionTime := (lastConnectionTime w1)(accountId := None)\<rparr>;
          w3 = Account_update accountId (\<lambda>row. row\<lparr>acc_status := Connecting, qr_code := None\<rparr>) w2
      in case connectAccount setup now accountId w3 of
           (Inr sock, w') \<Rightarrow> (Inr (), w')
         | (Inl e, w') \<Rightarrow> (Inl e, Account_update accountId (\<lambda>row. row\<lparr>acc_status := Error\<rparr>) w'))"

text \<open>
  \<open>disconnectAccount\<close> (the later of the two definitions in the class, which is the one
  in force): \<open>logout_throws\<close> says whether \<open>sock.logout()\<close> throws; if it does, the
  \<open>catch\<close> only prints and nothing else is done.
\<close>

definition disconnectAccount :: "bool \<Rightarrow> 'k \<Rightarrow> 'k world \<Rightarrow> 'k world" where
  "disconnectAccount logout_throws accountId w =
     (let w1 = (case sessions w accountId of
                  None \<Rightarrow> w
                | Some sock \<Rightarrow> w\<lparr>logout_calls := logout_calls w @ [sock]\<rparr>)
      in if sessions w accountId \<noteq> None \<and> logout_throws then w1
         else
           let w2 = w1\<lparr>sessions := (sessions w1)(accountId := None),
                       retryCount := (retryCount w1)(accountId := None),
                       lastConnectionTime := (lastConnectionTime w1)(accountId := None)\<rparr>
           in Account_update accountId (\<lambda>row. row\<lparr>acc_status := Disconnected, qr_code := None\<rparr>) w2)"

text \<open>
  The handles that are live: created by \<open>makeWASocket\<close> for the account and never
  logged out.
\<close>

definition live_handles :: "'k world \<Rightarrow> 'k \<Rightarrow> nat list" where
  "live_handles w accountId =
     filter (\<lambda>sock. sock \<notin> set (logout_calls w))
       (map fst (filter (\<lambda>(sock, a). a = accountId) (opened w)))"

section \<open>Transport events\<close>

text \<open>
  The close reasons of the library are not part of this repository: the four the
  handler compares with are a parameter. A status code is an \<open>option\<close> because
  \<open>lastDisconnect?.error?.output?.statusCode\<close> may be \<open>undefined\<close>, and so may a name the
  library does not define.
\<close>

record disconnect_reason =
  loggedOut :: "int option"
  forbidden :: "int option"
  banned :: "int option"
  multideviceMismatch :: "int option"

datatype connection = Close | Open | Connecting_state

record connection_update =
  connection :: "connection option"
  statusCode :: "int option"
  errorMessage :: "string option"
  qr :: "string option"

text \<open>JavaScript truthiness of a string that may be \<open>null\<close> or \<open>undefined\<close>.\<close>

definition truthy :: "string option \<Rightarrow> bool" where
  "truthy v = (case v of None \<Rightarrow> False | Some s \<Rightarrow> s \<noteq> [])"

fun startsWith :: "string \<Rightarrow> string \<Rightarrow> bool" where
  "startsWith s [] = True"
| "startsWith [] (c # p) = False"
| "startsWith (x # s) (c # p) = (x = c \<and> startsWith s p)"

fun includes_str :: "string \<Rightarrow> string \<Rightarrow> bool" where
  "includes_str [] p = (p = [])"
| "includes_str (x # s) p = (startsWith (x # s) p \<or> includes_str s p)"

definition shouldAttemptReconnect :: "disconnect_reason \<Rightarrow> int option \<Rightarrow> string \<Rightarrow> bool" where
  "shouldAttemptReconnect DR code msg =
     (if code = loggedOut DR then False
      else if msg \<noteq> [] \<and> includes_str msg ''rate limit'' then False
      else if code = forbidden DR \<or> code = banned DR then False
      else True)"

definition isPermanentError :: "disconnect_reason \<Rightarrow> int option \<Rightarrow> bool" where
  "isPermanentError DR code = (code \<in> set [forbidden DR, banned DR, multideviceMismatch DR])"

text \<open>
  The \<open>close\<close> branch of \<open>handleConnectionUpdate\<close>: the registered handle is deleted,
  then the reason decides between a scheduled reconnect, the permanent-error branch and
  the logged-out branch.
\<close>

definition on_close :: "disconnect_reason \<Rightarrow> 'k \<Rightarrow> connection_update \<Rightarrow> 'k world \<Rightarrow> 'k world" where
  "on_close DR accountId u w =
     (let msg = (if truthy (errorMessage u) then the (errorMessage u) else ''Unknown error'');
          w1 = w\<lparr>sessions := (sessions w)(accountId := None)\<rparr>;
          shouldReconnect = shouldAttemptReconnect DR (statusCode u) msg
      in if shouldReconnect then
           if \<not> isPermanentError DR (statusCode u) then
             scheduleReconnect accountId (statusCode u) w1
           else
             Account_update accountId (\<lambda>row. row\<lparr>acc_status := Error, qr_code := None\<rparr>) w1
         else
           let w2 = Account_update accountId
                      (\<lambda>row. row\<lparr>acc_status := Disconnected, qr_code := None\<rparr>) w1
           in w2\<lparr>retryCount := (retryCount w2)(accountId := None),
                 lastConnectionTime := (lastConnectionTime w2)(accountId := None)\<rparr>)"

text \<open>
  The \<open>open\<close> branch. \<open>user_id\<close> is \<open>sock.user.id\<close> (\<open>None\<close> when \<open>sock.user\<close> is
  missing), \<open>render\<close> the conversion of the identifier inside a template literal, \<open>now\<close>
  is \<open>new Date()\<close>. The phone is the part of the id before \<open>@\<close> and before \<open>:\<close>. The
  result is what the branch throws, if anything, and the world it has reached by then.
\<close>

definition detect_phone :: "string option \<Rightarrow> string option" where
  "detect_phone user_id =
     (if truthy user_id then
        Some (takeWhile (\<lambda>c. c \<noteq> CHR '':'') (takeWhile (\<lambda>c. c \<noteq> CHR ''@'') (the user_id)))
      else None)"

definition on_open ::
  "('k \<Rightarrow> string) \<Rightarrow> int \<Rightarrow> 'k \<Rightarrow> string option \<Rightarrow> 'k world \<Rightarrow> db_error option \<times> 'k world" where
  "on_open render now accountId user_id w =
     (let currentAccount = accounts w accountId;
          currentName = map_option acc_name currentAccount;
          accountName = (if truthy currentName then the currentName
                         else ''device-'' @ render accountId);
          detectedPhone = detect_phone user_id;
          currentPhone = (case currentAccount of None \<Rightarrow> None | Some row \<Rightarrow> acc_phone row);
          phoneChanged = (truthy user_id \<and> truthy currentPhone \<and> currentPhone \<noteq> detectedPhone)
      in if phone_taken w accountId detectedPhone then (Some UniqueViolation, w)
         else
           (let w1 = Account_update accountId
                       (\<lambda>row. row\<lparr>acc_name := accountName, acc_phone := detectedPhone,
                                   acc_status := Connected, qr_code := None,
                                   last_connected := Some now\<rparr>) w;
                logDescription =
                  (if phoneChanged then
                     ''Account reconnected with new phone number: '' @ the detectedPhone
                       @ '' (previously: '' @ the currentPhone @ '')''
                   else ''Account connected successfully''
                       @ (if truthy detectedPhone then '' - Phone: '' @ the detectedPhone else []))
            in case ActivityLog_create accountId
                      (if phoneChanged then ''phone_updated'' else ''connected'')
                      logDescription w1 of
                 Inl e \<Rightarrow> (Some e, w1)
               | Inr w2 \<Rightarrow> (None, w2)))"

text \<open>
  \<open>handleConnectionUpdate\<close>. \<open>toDataURL\<close> is the QR encoder (\<open>None\<close> when it throws).
  Of the handle only \<open>sock.user.id\<close> is read; the parameter \<open>accountData\<close> of the source
  is not used by its body.
  Whatever is thrown inside the \<open>try\<close> is caught and \<open>error\<close> is persisted: the
  encoder throwing before the branches, or a constraint violation in the \<open>open\<close> branch.
\<close>

definition handleConnectionUpdate ::
  "disconnect_reason \<Rightarrow> (string \<Rightarrow> string option) \<Rightarrow> ('k \<Rightarrow> string) \<Rightarrow> int \<Rightarrow>
   'k \<Rightarrow> connection_update \<Rightarrow> string option \<Rightarrow> 'k world \<Rightarrow> 'k world" where
  "handleConnectionUpdate DR toDataURL render now accountId u user_id w =
     (let after_qr =
            (if truthy (qr u) then
               (case toDataURL (the (qr u)) of
                  None \<Rightarrow> None
                | Some qrDataURL \<Rightarrow>
                    Some (Account_update accountId
                            (\<lambda>row. row\<lparr>qr_code := Some qrDataURL, acc_status := Connecting\<rparr>) w))
             else Some w)
      in case after_qr of
           None \<Rightarrow> Account_update accountId (\<lambda>row. row\<lparr>acc_status := Error\<rparr>) w
         | Some w1 \<Rightarrow>
             if connection u = Some Close then on_close DR accountId u w1
             else if connection u = Some Open then
               (case on_open render now accountId user_id w1 of
                  (None, w2) \<Rightarrow> w2
                | (Some e, w2) \<Rightarrow>
                    Account_update accountId (\<lambda>row. row\<lparr>acc_status := Error\<rparr>) w2)
             else w1)"

section \<open>Sending one message\<close>

text \<open>
  What lies outside the repository is gathered in one record: \<open>parseInt\<close> and \<open>String\<close>
  on account identifiers (\<open>sendMessage\<close> looks the handle up under both forms of the
  key), the transport, and what the tasks running between two \<open>await\<close>s do.
  \<open>deliver sock jid text mediaPath\<close> stands for what \<open>sendMessage\<close> does between the
  lookup of the handle and the activity-log insert (loading the media file,
  \<open>sock.sendMessage\<close>, reading its result): \<open>None\<close> when all of it went through, the
  message of the error thrown otherwise. \<open>interfere i\<close> is the effect of every other task (pause, cancel,
  disconnect, events) between the previous step of a dispatch pass and its \<open>i\<close>-th
  status re-check; \<open>clock i\<close> is \<open>new Date()\<close> in iteration \<open>i\<close>.
\<close>

record 'k environment =
  parseInt :: "'k \<Rightarrow> 'k"
  String_of :: "'k \<Rightarrow> 'k"
  deliver :: "nat \<Rightarrow> string \<Rightarrow> string option \<Rightarrow> string option \<Rightarrow> string option"
  interfere :: "nat \<Rightarrow> 'k world \<Rightarrow> 'k world"
  clock :: "nat \<Rightarrow> int"

datatype send_error = NotConnected | TransportFailed string | LogFailed db_error

text \<open>\<open>error.message\<close>; for a constraint violation, the message the ORM gives it.\<close>

fun error_text :: "send_error \<Rightarrow> string" where
  "error_text NotConnected = ''Account not connected''"
| "error_text (TransportFailed msg) = msg"
| "error_text (LogFailed ForeignKeyViolation) = ''SQLITE_CONSTRAINT: FOREIGN KEY constraint failed''"
| "error_text (LogFailed UniqueViolation) = ''Validation error''"

text \<open>
  \<open>sendMessage\<close>: numeric key first, string key as the fallback; no handle under either
  throws \<open>Account not connected\<close>. Both outcomes write an activity-log row; a failure
  is rethrown to the caller. The insert of the \<open>message_sent\<close> row is inside the \<open>try\<close>:
  if it throws, the \<open>catch\<close> runs on that error. The insert of the \<open>message_failed\<close> row
  is inside the \<open>catch\<close>: if it throws, its error is the one the caller gets.
\<close>

definition sendMessage ::
  "'k environment \<Rightarrow> 'k \<Rightarrow> string \<Rightarrow> string option \<Rightarrow> string option \<Rightarrow> 'k world \<Rightarrow>
   (send_error + unit) \<times> 'k world" where
  "sendMessage env accountId phone message mediaPath w =
     (let stringAccountId = String_of env accountId;
          numericAccountId = parseInt env accountId;
          sock = (case sessions w numericAccountId of
                    Some s \<Rightarrow> Some s
                  | None \<Rightarrow> sessions w stringAccountId);
          outcome =
            (case sock of
               None \<Rightarrow> Inl NotConnected
             | Some s \<Rightarrow>
                 (let jid = (if CHR ''@'' \<in> set phone then phone else phone @ ''@s.whatsapp.net'')
                  in case deliver env s jid message mediaPath of
                       Some msg \<Rightarrow> Inl (TransportFailed msg)
                     | None \<Rightarrow> Inr ()));
          caught = (\<lambda>e. case ActivityLog_create accountId ''message_failed''
                                (''Failed to send message to '' @ phone @ '': '' @ error_text e) w of
                          Inl e' \<Rightarrow> (Inl (LogFailed e'), w)
                        | Inr w' \<Rightarrow> (Inl e, w'))
      in case outcome of
           Inr result \<Rightarrow>
             (case ActivityLog_create accountId ''message_sent'' (''Message sent to '' @ phone) w of
                Inl e' \<Rightarrow> caught (LogFailed e')
              | Inr w' \<Rightarrow> (Inr result, w'))
         | Inl e \<Rightarrow> caught e)"

section \<open>The campaign dispatcher\<close>

definition Campaign_update :: "nat \<Rightarrow> ('k campaign \<Rightarrow> 'k campaign) \<Rightarrow> 'k world \<Rightarrow> 'k world" where
  "Campaign_update campaignId f w =
     (case campaigns w campaignId of
        None \<Rightarrow> w
      | Some row \<Rightarrow> w\<lparr>campaigns := (campaigns w)(campaignId \<mapsto> f row)\<rparr>)"

definition CampaignMessage_update ::
  "nat \<Rightarrow> (campaign_message \<Rightarrow> campaign_message) \<Rightarrow> 'k world \<Rightarrow> 'k world" where
  "CampaignMessage_update messageId f w =
     w\<lparr>campaign_messages :=
          map (\<lambda>row. if msg_id row = messageId then f row else row) (campaign_messages w)\<rparr>"

text \<open>The rows \<open>findAll\<close> returns: pending, of this campaign, ordered by id.\<close>

definition pending_of :: "nat \<Rightarrow> 'k world \<Rightarrow> campaign_message list" where
  "pending_of campaignId w =
     sort_key msg_id
       (filter (\<lambda>row. campaign_id row = campaignId \<and> msg_status row = Pending)
          (campaign_messages w))"

text \<open>The re-check \<open>!currentCampaign || currentCampaign.status !== 'running'\<close>, negated.\<close>

definition still_running :: "nat \<Rightarrow> 'k world \<Rightarrow> bool" where
  "still_running campaignId w =
     (case campaigns w campaignId of
        None \<Rightarrow> False
      | Some currentCampaign \<Rightarrow> cmp_status currentCampaign = Running)"

text \<open>
  What a pass does, in order: the two kinds of row update and the calls of \<open>delay\<close>
  (in milliseconds).
\<close>

datatype dispatch_event = MarkSent nat | MarkFailed nat string | Delay int

record 'k pass =
  sentCount :: nat
  failedCount :: nat
  trace :: "dispatch_event list"
  stopped :: bool
  world_of :: "'k world"

text \<open>
  The \<open>for\<close> loop of \<open>sendBulkMessages\<close> over the rows fetched before it; \<open>i\<close> counts the
  iterations. \<open>break\<close> sets \<open>stopped\<close> and leaves the rest of the rows alone. The
  \<open>delay\<close> is the last statement of the \<open>try\<close>, after the row is marked \<open>sent\<close>; the
  \<open>catch\<close> marks the row \<open>failed\<close> with \<open>error.message\<close>.
\<close>

fun dispatch_loop ::
  "'k environment \<Rightarrow> nat \<Rightarrow> 'k \<Rightarrow> int \<Rightarrow> nat \<Rightarrow> campaign_message list \<Rightarrow> 'k pass \<Rightarrow> 'k pass" where
  "dispatch_loop env campaignId accountId delay_secs i [] p = p"
| "dispatch_loop env campaignId accountId delay_secs i (messageData # rest) p =
     (let w0 = interfere env i (world_of p) in
      if \<not> still_running campaignId w0 then p\<lparr>stopped := True, world_of := w0\<rparr>
      else
        (case sendMessage env accountId (msg_phone messageData) (message_text messageData)
                (media_path messageData) w0 of
           (Inr result, w1) \<Rightarrow>
             dispatch_loop env campaignId accountId delay_secs (Suc i) rest
               (p\<lparr>sentCount := sentCount p + 1,
                  trace := trace p @ [MarkSent (msg_id messageData), Delay (delay_secs * 1000)],
                  world_of := CampaignMessage_update (msg_id messageData)
                     (\<lambda>row. row\<lparr>msg_status := Sent, sent_at := Some (clock env i)\<rparr>) w1\<rparr>)
         | (Inl e, w1) \<Rightarrow>
             dispatch_loop env campaignId accountId delay_secs (Suc i) rest
               (p\<lparr>failedCount := failedCount p + 1,
                  trace := trace p @ [MarkFailed (msg_id messageData) (error_text e)],
                  world_of := CampaignMessage_update (msg_id messageData)
                     (\<lambda>row. row\<lparr>msg_status := Failed,
                                 error_message := Some (error_text e)\<rparr>) w1\<rparr>)))"

text \<open>The counters and the world as they are when the loop is entered.\<close>

definition new_pass :: "'k world \<Rightarrow> 'k pass" where
  "new_pass w = \<lparr>sentCount = 0, failedCount = 0, trace = [], stopped = False, world_of = w\<rparr>"

datatype bulk_error = NotFoundOrNotRunning | NullAccount

text \<open>
  \<open>sendBulkMessages\<close>. The campaign is loaded only if its status is \<open>running\<close>;
  \<open>campaign.account.id\<close> throws a \<open>TypeError\<close> when the account row is gone. After the
  loop the counters are incremented and the campaign is completed when no pending row
  is left. The outer \<open>catch\<close> sets the status to \<open>cancelled\<close> and rethrows. The result
  is what is returned or thrown, the trace of the pass, and the world.
\<close>

definition sendBulkMessages ::
  "'k environment \<Rightarrow> nat \<Rightarrow> 'k world \<Rightarrow>
   (bulk_error + nat \<times> nat) \<times> dispatch_event list \<times> 'k world" where
  "sendBulkMessages env campaignId w =
     (let caught = (\<lambda>e. (Inl e, [],
                          Campaign_update campaignId (\<lambda>row. row\<lparr>cmp_status := Cancelled\<rparr>) w))
      in case campaigns w campaignId of
           None \<Rightarrow> caught NotFoundOrNotRunning
         | Some campaign \<Rightarrow>
             if cmp_status campaign \<noteq> Running then caught NotFoundOrNotRunning
             else if accounts w (account_id campaign) = None then caught NullAccount
             else
               (let accountId = account_id campaign;
                    pendingMessages = pending_of campaignId w;
                    p = dispatch_loop env campaignId accountId (delay_seconds campaign) 0
                          pendingMessages (new_pass w);
                    w1 = Campaign_update campaignId
                           (\<lambda>row. row\<lparr>sent_count := sent_count row + sentCount p,
                                       failed_count := failed_count row + failedCount p\<rparr>)
                           (world_of p);
                    remainingCount = length (pending_of campaignId w1);
                    w2 = (if remainingCount = 0 then
                            Campaign_update campaignId
                              (\<lambda>row. row\<lparr>cmp_status := Completed,
                                          completed_at := Some (clock env (length pendingMessages))\<rparr>)
                              w1
                          else w1)
                in (Inr (sentCount p, failedCount p), trace p, w2)))"

section \<open>Notions used to state the properties\<close>

text \<open>
  The world \<open>handleConnectionUpdate\<close> has reached after the QR step, when the encoder
  does not throw.
\<close>

definition after_qr :: "(string \<Rightarrow> string option) \<Rightarrow> 'k \<Rightarrow> connection_update \<Rightarrow> 'k world \<Rightarrow> 'k world" where
  "after_qr toDataURL a u w =
     (if truthy (qr u) then
        Account_update a (\<lambda>row. row\<lparr>qr_code := toDataURL (the (qr u)), acc_status := Connecting\<rparr>) w
      else w)"

text \<open>No handle is registered for the account under either form of its key.\<close>

definition no_handle :: "'k environment \<Rightarrow> 'k \<Rightarrow> 'k world \<Rightarrow> bool" where
  "no_handle env accountId w =
     (sessions w (parseInt env accountId) = None \<and> sessions w (String_of env accountId) = None)"

text \<open>The message a trace event marks, and the messages a trace marks, in order.\<close>

fun marked :: "dispatch_event \<Rightarrow> nat option" where
  "marked (MarkSent n) = Some n"
| "marked (MarkFailed n msg) = Some n"
| "marked (Delay ms) = None"

definition marks :: "dispatch_event list \<Rightarrow> nat list" where
  "marks tr = List.map_filter marked tr"

text \<open>
  A trace in which every \<open>sent\<close> mark is followed at once by a delay of \<open>ms\<close>, and a
  \<open>failed\<close> mark by none.
\<close>

fun delay_after_each_sent :: "int \<Rightarrow> dispatch_event list \<Rightarrow> bool" where
  "delay_after_each_sent ms [] = True"
| "delay_after_each_sent ms (MarkSent n # Delay x # tr) = (x = ms \<and> delay_after_each_sent ms tr)"
| "delay_after_each_sent ms (MarkFailed n msg # tr) = delay_after_each_sent ms tr"
| "delay_after_each_sent ms tr = False"

text \<open>
  The pacing as the specification words it: a delay of \<open>ms\<close> after each message before
  the next one, and none after the last message of the pass.
\<close>

fun spec_delay_between_messages :: "int \<Rightarrow> dispatch_event list \<Rightarrow> bool" where
  "spec_delay_between_messages ms [] = True"
| "spec_delay_between_messages ms [e] = (marked e \<noteq> None)"
| "spec_delay_between_messages ms (e # Delay x # tr) =
     (marked e \<noteq> None \<and> x = ms \<and> tr \<noteq> [] \<and> spec_delay_between_messages ms tr)"
| "spec_delay_between_messages ms tr = False"

text \<open>The two kinds of mark, and the marks of a trace with the delays left out.\<close>

fun is_failed :: "dispatch_event \<Rightarrow> bool" where
  "is_failed (MarkFailed n msg) = True"
| "is_failed e = False"

fun is_sent :: "dispatch_event \<Rightarrow> bool" where
  "is_sent (MarkSent n) = True"
| "is_sent e = False"

definition mark_events :: "dispatch_event list \<Rightarrow> dispatch_event list" where
  "mark_events tr = filter (\<lambda>e. marked e \<noteq> None) tr"

text \<open>Every row with an id in \<open>ids\<close> is \<open>sent\<close>.\<close>

definition all_sent :: "nat set \<Rightarrow> 'k world \<Rightarrow> bool" where
  "all_sent ids w =
     (\<forall>row \<in> set (campaign_messages w). msg_id row \<in> ids \<longrightarrow> msg_status row = Sent)"

text \<open>Every row with an id in \<open>ids\<close> is \<open>failed\<close> with the error text \<open>msg\<close>.\<close>

definition all_failed :: "nat set \<Rightarrow> string \<Rightarrow> 'k world \<Rightarrow> bool" where
  "all_failed ids msg w =
     (\<forall>row \<in> set (campaign_messages w).
        msg_id row \<in> ids \<longrightarrow> msg_status row = Failed \<and> error_message row = Some msg)"

section \<open>Example data\<close>

text \<open>Concrete reasons, rows, worlds and environments on which the properties are exercised.\<close>

definition example_reasons :: disconnect_reason where
  "example_reasons = \<lparr>loggedOut = Some 401, forbidden = Some 403, banned = None,
                       multideviceMismatch = Some 411\<rparr>"

definition example_account :: account where
  "example_account = \<lparr>acc_name = ''main'', acc_phone = Some ''628111'', acc_status = Connected,
                       qr_code = None, last_connected = None\<rparr>"

definition example_world :: "nat world" where
  "example_world =
     \<lparr>sessions = Map.empty, retryCount = Map.empty, lastConnectionTime = Map.empty,
      account_rows = [(1, example_account)],
      campaigns = Map.empty, campaign_messages = [], activity_log = [],
      next_sock = 0, opened = [], logout_calls = [], timers = []\<rparr>"

definition example_encoder :: "string \<Rightarrow> string option" where
  "example_encoder payload = Some (''data:image/png;base64,'' @ payload)"

definition example_render :: "nat \<Rightarrow> string" where
  "example_render n = (if n = 1 then ''1'' else ''0'')"

definition close_event :: "int option \<Rightarrow> connection_update" where
  "close_event code = \<lparr>connection = Some Close, statusCode = code,
                        errorMessage = Some ''Connection Failure'', qr = None\<rparr>"


definition retrying_world :: "nat world" where
  "retrying_world = example_world\<lparr>retryCount := [1 \<mapsto> 2], sessions := [1 \<mapsto> 0],
                                  lastConnectionTime := [1 \<mapsto> 1700000000000]\<rparr>"


definition example_env :: "nat environment" where
  "example_env =
     \<lparr>parseInt = (\<lambda>k. k), String_of = (\<lambda>k. k),
      deliver = (\<lambda>sock jid text mediaPath.
                   if jid = ''000@s.whatsapp.net'' then Some ''not on WhatsApp'' else None),
      interfere = (\<lambda>i w. w),
      clock = (\<lambda>i. 1700000100000 + int i)\<rparr>"

definition example_message :: "nat \<Rightarrow> string \<Rightarrow> campaign_message" where
  "example_message n phone =
     \<lparr>msg_id = n, campaign_id = 7, msg_phone = phone, message_text = Some ''hello'',
      media_path = None, msg_status = Pending, error_message = None, sent_at = None\<rparr>"

definition example_campaign :: "nat campaign" where
  "example_campaign = \<lparr>account_id = 1, cmp_status = Running, delay_seconds = 2,
                        sent_count = 0, failed_count = 0, completed_at = None\<rparr>"

definition campaign_world :: "string \<Rightarrow> nat world" where
  "campaign_world first_phone =
     example_world\<lparr>sessions := [1 \<mapsto> 0], campaigns := [7 \<mapsto> example_campaign],
                   campaign_messages := [example_message 1 first_phone,
                                         example_message 2 ''628002'']\<rparr>"

definition pausing_env :: "nat environment" where
  "pausing_env =
     example_env\<lparr>interfere :=
       (\<lambda>i w. if i = 1 then Campaign_update 7 (\<lambda>row. row\<lparr>cmp_status := Paused\<rparr>) w else w)\<rparr>"

definition offline_world :: "nat world" where
  "offline_world = (campaign_world ''628001'')\<lparr>sessions := Map.empty\<rparr>"

definition paused_world :: "nat world" where
  "paused_world =
     (campaign_world ''628001'')\<lparr>campaigns := [7 \<mapsto> example_campaign\<lparr>cmp_status := Paused\<rparr>]\<rparr>"

section \<open>Properties\<close>

subsection \<open>The accounts table\<close>

lemma map_of_update_where:
  "map_of (map (\<lambda>(k, row). if k = a then (k, f row) else (k, row)) rows) b =
     (if b = a then map_option f (map_of rows a) else map_of rows b)"
  by (induction rows) auto


lemma accounts_Account_update [simp]:
  "accounts (Account_update a f w) b =
     (if b = a then map_option f (accounts w a) else accounts w b)"
  by (simp add: accounts_def Account_update_def map_of_update_where)

lemma Account_update_frame [simp]:
  "sessions (Account_update a f w) = sessions w"
  "retryCount (Account_update a f w) = retryCount w"
  "lastConnectionTime (Account_update a f w) = lastConnectionTime w"
  "campaigns (Account_update a f w) = campaigns w"
  "campaign_messages (Account_update a f w) = campaign_messages w"
  "activity_log (Account_update a f w) = activity_log w"
  "next_sock (Account_update a f w) = next_sock w"
  "opened (Account_update a f w) = opened w"
  "logout_calls (Account_update a f w) = logout_calls w"
  "timers (Account_update a f w) = timers w"
  by (simp_all add: Account_update_def)

lemma accounts_frame [simp]:
  "accounts (sessions_update g0 w) = accounts w"
  "accounts (retryCount_update g1 w) = accounts w"
  "accounts (lastConnectionTime_update g2 w) = accounts w"
  "accounts (campaigns_update g3 w) = accounts w"
  "accounts (campaign_messages_update g4 w) = accounts w"
  "accounts (activity_log_update g5 w) = accounts w"
  "accounts (next_sock_update g6 w) = accounts w"
  "accounts (opened_update g7 w) = accounts w"
  "accounts (logout_calls_update g8 w) = accounts w"
  "accounts (timers_update g9 w) = accounts w"
  by (simp_all add: accounts_def)



subsection \<open>Backoff\<close>







subsection \<open>Rate limiter\<close>

lemma remainingTime_pos: "now - t < 30000 \<Longrightarrow> 0 < remainingTime t now"
  by (simp add: remainingTime_def CONNECTION_COOLDOWN_def)

lemma connect_allowed:
  assumes "rate_limit (lastConnectionTime w a) now = None"
  shows "lastConnectionTime (snd (connectAccount setup now a w)) a = Some now"
    and "fst (connectAccount setup now a w) \<noteq> Inl (RateLimited r b)"
  using assms
  by (auto simp: connectAccount_def connectAccount_try_def Let_def
           split: option.splits)

lemma connect_rejected:
  assumes "lastConnectionTime w a = Some t" "t \<noteq> 0" "now - t < 30000"
  shows "connectAccount setup now a w =
           (Inl (RateLimited (remainingTime t now) a),
            Account_update a (\<lambda>row. row\<lparr>acc_status := Error\<rparr>) w)"
  using assms
  by (simp add: connectAccount_def connectAccount_try_def rate_limit_def CONNECTION_COOLDOWN_def)

text \<open>
  C5. An attempt with no prior reservation, or with 30000 ms elapsed since it, is not
  rejected by the rate limiter and records its timestamp, whatever happens to the
  connect afterwards; a second attempt less than 30000 ms after that timestamp is
  rejected with a strictly positive remaining time. (\<open>Date.now()\<close> is positive.)
\<close>

theorem rate_limit_twice:
  fixes w :: "'k world"
  assumes prior: "lastConnectionTime w a = None
                  \<or> (\<exists>t0. lastConnectionTime w a = Some t0 \<and> 30000 \<le> t1 - t0)"
      and pos: "0 < t1"
      and within: "t2 - t1 < 30000"
  shows "(\<forall>r. fst (connectAccount setup1 t1 a w) \<noteq> Inl (RateLimited r a))
       \<and> lastConnectionTime (snd (connectAccount setup1 t1 a w)) a = Some t1
       \<and> (\<exists>r. 0 < r \<and> r = remainingTime t1 t2
              \<and> fst (connectAccount setup2 t2 a (snd (connectAccount setup1 t1 a w))) =
                  Inl (RateLimited r a))"
proof -
  have free: "rate_limit (lastConnectionTime w a) t1 = None"
    using prior by (auto simp: rate_limit_def CONNECTION_COOLDOWN_def)
  note first = connect_allowed [OF free, of setup1]
  have "t1 \<noteq> 0" using pos by simp
  from connect_rejected [OF first(1) this within, of setup2]
  have "fst (connectAccount setup2 t2 a (snd (connectAccount setup1 t1 a w))) =
          Inl (RateLimited (remainingTime t1 t2) a)" by simp
  with first remainingTime_pos [OF within] show ?thesis by blast
qed

theorem rate_limit_twice_witness:
  "fst (connectAccount None 1700000000000 1 example_world) = Inr 0
 \<and> lastConnectionTime (snd (connectAccount None 1700000000000 1 example_world)) 1
     = Some 1700000000000
 \<and> fst (connectAccount None 1700000012500 1
          (snd (connectAccount None 1700000000000 1 example_world)))
     = Inl (RateLimited 18 1)"
proof -
  have a: "lastConnectionTime example_world (1::nat) = None
      \<or> (\<exists>t0. lastConnectionTime example_world (1::nat) = Some t0 \<and> 30000 \<le> 1700000000000 - t0)"
    by (simp add: accounts_def Account_update_def example_world_def)
  have b: "(0::int) < 1700000000000" by simp
  have c: "(1700000012500::int) - 1700000000000 < 30000" by simp
  have r: "remainingTime 1700000000000 1700000012500 = 18"
    by (simp add: remainingTime_def CONNECTION_COOLDOWN_def)
  have f: "fst (connectAccount None 1700000000000 1 example_world) = Inr 0"
    by (simp add: accounts_def Account_update_def connectAccount_def connectAccount_try_def rate_limit_def example_world_def Let_def)
  show ?thesis using rate_limit_twice [OF a b c, of None None] r f by simp
qed

subsection \<open>Connection closed\<close>

lemma no_reconnect_branch:
  assumes "\<not> shouldAttemptReconnect DR (statusCode u)
               (if truthy (errorMessage u) then the (errorMessage u) else ''Unknown error'')"
  shows "timers (on_close DR a u v) = timers v"
    and "retryCount (on_close DR a u v) a = None"
    and "lastConnectionTime (on_close DR a u v) a = None"
    and "sessions (on_close DR a u v) a = None"
    and "accounts v a \<noteq> None \<Longrightarrow>
           \<exists>row. accounts (on_close DR a u v) a = Some row
                \<and> acc_status row = Disconnected \<and> qr_code row = None"
  using assms by (auto simp: on_close_def Let_def split: option.splits)

lemma after_qr_frame:
  "timers (after_qr toDataURL a u w) = timers w"
  "sessions (after_qr toDataURL a u w) = sessions w"
  "retryCount (after_qr toDataURL a u w) = retryCount w"
  "lastConnectionTime (after_qr toDataURL a u w) = lastConnectionTime w"
  "activity_log (after_qr toDataURL a u w) = activity_log w"
  "(accounts (after_qr toDataURL a u w) a = None) = (accounts w a = None)"
  by (simp_all add: after_qr_def split: option.splits)

lemma handle_close:
  assumes "connection u = Some Close" "truthy (qr u) \<longrightarrow> toDataURL (the (qr u)) \<noteq> None"
  shows "handleConnectionUpdate DR toDataURL render now a u user_id w =
           on_close DR a u (after_qr toDataURL a u w)"
  using assms
  by (auto simp: handleConnectionUpdate_def after_qr_def Let_def split: option.splits)

text \<open>
  C6. A \<open>close\<close> event whose reason is \<open>loggedOut\<close> sets no timer, deletes the handle, the
  retry counter and the rate-limit timestamp of the account, and persists
  \<open>disconnected\<close> with the QR code cleared (provided the QR encoder does not throw on
  a payload carried by the same event).
\<close>

theorem logged_out_close:
  assumes close: "connection u = Some Close"
      and code: "statusCode u = loggedOut DR"
      and enc: "truthy (qr u) \<longrightarrow> toDataURL (the (qr u)) \<noteq> None"
  shows "timers (handleConnectionUpdate DR toDataURL render now a u user_id w) = timers w
       \<and> retryCount (handleConnectionUpdate DR toDataURL render now a u user_id w) a = None
       \<and> lastConnectionTime (handleConnectionUpdate DR toDataURL render now a u user_id w) a = None
       \<and> sessions (handleConnectionUpdate DR toDataURL render now a u user_id w) a = None
       \<and> (accounts w a \<noteq> None \<longrightarrow>
            (\<exists>row. accounts (handleConnectionUpdate DR toDataURL render now a u user_id w) a = Some row
                 \<and> acc_status row = Disconnected \<and> qr_code row = None))"
proof -
  note w1 = handle_close [where toDataURL = toDataURL, OF close enc] after_qr_frame
  have "\<not> shouldAttemptReconnect DR (statusCode u) (if truthy (errorMessage u) then the (errorMessage u) else ''Unknown error'')"
    using code by (simp add: shouldAttemptReconnect_def)
  from no_reconnect_branch [OF this, where a = a and v = "after_qr toDataURL a u w"] show ?thesis
    by (simp add: w1)
qed

theorem logged_out_close_witness:
  "persisted_status (handleConnectionUpdate example_reasons example_encoder example_render 1700000050000 1
      (close_event (Some 401)) None retrying_world) 1 = Some Disconnected
 \<and> timers (handleConnectionUpdate example_reasons example_encoder example_render 1700000050000 1
      (close_event (Some 401)) None retrying_world) = []
 \<and> retryCount (handleConnectionUpdate example_reasons example_encoder example_render 1700000050000 1
      (close_event (Some 401)) None retrying_world) 1 = None"
proof -
  have a: "connection (close_event (Some 401)) = Some Close" by (simp add: close_event_def)
  have b: "statusCode (close_event (Some 401)) = loggedOut example_reasons"
    by (simp add: close_event_def example_reasons_def)
  have c: "truthy (qr (close_event (Some 401))) \<longrightarrow> example_encoder (the (qr (close_event (Some 401)))) \<noteq> None"
    by (simp add: close_event_def truthy_def)
  have d: "accounts retrying_world (1::nat) \<noteq> None" "timers retrying_world = []"
    by (simp_all add: accounts_def Account_update_def retrying_world_def example_world_def)
  show ?thesis
    using logged_out_close [where toDataURL = example_encoder, OF a b c, of example_render 1700000050000 1 None retrying_world] d
    by (auto simp: persisted_status_def)
qed

text \<open>
  C2. What the handler does on a \<open>close\<close> event whose reason is \<open>forbidden\<close> or \<open>banned\<close>:
  \<open>shouldAttemptReconnect\<close> answers no, so the handler takes the logged-out branch. No
  timer is set, and the status persisted is \<open>disconnected\<close>, not \<open>error\<close>; the branch
  guarded by \<open>isPermanentError\<close> is never reached for these two reasons.
\<close>

theorem forbidden_close_persists_disconnected:
  assumes close: "connection u = Some Close"
      and code: "statusCode u = forbidden DR \<or> statusCode u = banned DR"
      and enc: "truthy (qr u) \<longrightarrow> toDataURL (the (qr u)) \<noteq> None"
      and ex: "accounts w a \<noteq> None"
  shows "persisted_status (handleConnectionUpdate DR toDataURL render now a u user_id w) a
           = Some Disconnected
       \<and> timers (handleConnectionUpdate DR toDataURL render now a u user_id w) = timers w"
proof -
  note w1 = handle_close [where toDataURL = toDataURL, OF close enc] after_qr_frame
  have "\<not> shouldAttemptReconnect DR (statusCode u) (if truthy (errorMessage u) then the (errorMessage u) else ''Unknown error'')"
    using code by (auto simp add: shouldAttemptReconnect_def)
  from no_reconnect_branch [OF this, where a = a and v = "after_qr toDataURL a u w"] ex show ?thesis
    by (auto simp: w1 persisted_status_def)
qed

theorem forbidden_close_persists_disconnected_witness:
  "persisted_status (handleConnectionUpdate example_reasons example_encoder example_render 1700000050000 1
      (close_event (Some 403)) None retrying_world) 1 = Some Disconnected
 \<and> persisted_status (handleConnectionUpdate example_reasons example_encoder example_render 1700000050000 1
      (close_event (Some 403)) None retrying_world) 1 \<noteq> Some Error"
proof -
  have a: "connection (close_event (Some 403)) = Some Close" by (simp add: close_event_def)
  have b: "statusCode (close_event (Some 403)) = forbidden example_reasons
         \<or> statusCode (close_event (Some 403)) = banned example_reasons"
    by (simp add: close_event_def example_reasons_def)
  have c: "truthy (qr (close_event (Some 403))) \<longrightarrow> example_encoder (the (qr (close_event (Some 403)))) \<noteq> None"
    by (simp add: close_event_def truthy_def)
  have d: "accounts retrying_world (1::nat) \<noteq> None"
    by (simp_all add: accounts_def Account_update_def retrying_world_def example_world_def)
  show ?thesis
    using forbidden_close_persists_disconnected [where toDataURL = example_encoder, OF a b c d, of example_render 1700000050000 None] by simp
qed

subsection \<open>Connection opened\<close>










subsection \<open>Handles per account\<close>

text \<open>
  C4. Two calls of \<open>connectAccount\<close> for account 1, 30 seconds apart: both return a handle,
  \<open>logout\<close> is called on neither, and both handles are live afterwards. The same second
  call made through \<open>forceReconnectAccount\<close> logs the first handle out and leaves one.
\<close>

theorem connect_twice_leaves_two_handles:
  "fst (connectAccount None 1700000000000 1 example_world) = Inr 0
 \<and> fst (connectAccount None 1700000030000 1 (snd (connectAccount None 1700000000000 1 example_world)))
     = Inr 1
 \<and> live_handles (snd (connectAccount None 1700000030000 1
      (snd (connectAccount None 1700000000000 1 example_world)))) 1 = [0, 1]
 \<and> logout_calls (snd (connectAccount None 1700000030000 1
      (snd (connectAccount None 1700000000000 1 example_world)))) = []
 \<and> live_handles (snd (forceReconnectAccount None 1700000030000 1
      (snd (connectAccount None 1700000000000 1 example_world)))) 1 = [1]"
  by (simp add: accounts_def Account_update_def connectAccount_def connectAccount_try_def forceReconnectAccount_def rate_limit_def
        CONNECTION_COOLDOWN_def live_handles_def example_world_def example_account_def Let_def)

subsection \<open>The dispatch pass\<close>

lemma sendMessage_frame:
  "campaigns (snd (sendMessage env a ph body med w)) = campaigns w"
  "sessions (snd (sendMessage env a ph body med w)) = sessions w"
  "campaign_messages (snd (sendMessage env a ph body med w)) = campaign_messages w"
  "accounts (snd (sendMessage env a ph body med w)) = accounts w"
  by (simp_all add: sendMessage_def ActivityLog_create_def Let_def split: option.splits sum.splits)

lemma CampaignMessage_update_frame:
  "campaigns (CampaignMessage_update n f w) = campaigns w"
  "sessions (CampaignMessage_update n f w) = sessions w"
  by (simp_all add: CampaignMessage_update_def)

lemma sendMessage_offline:
  "no_handle env a w \<Longrightarrow> accounts w a \<noteq> None \<Longrightarrow>
     fst (sendMessage env a ph body med w) = Inl NotConnected"
  by (auto simp: sendMessage_def no_handle_def ActivityLog_create_def Let_def)

lemma sendMessage_no_row:
  "accounts w a = None \<Longrightarrow>
     fst (sendMessage env a ph body med w) = Inl (LogFailed ForeignKeyViolation)"
  by (simp add: sendMessage_def ActivityLog_create_def Let_def split: option.splits sum.splits)

lemma loop_append:
  "\<not> stopped p \<Longrightarrow>
   dispatch_loop env c a d i (xs @ ys) p =
     (if stopped (dispatch_loop env c a d i xs p) then dispatch_loop env c a d i xs p
      else dispatch_loop env c a d (i + length xs) ys (dispatch_loop env c a d i xs p))"
proof (induction xs arbitrary: i p)
  case Nil
  then show ?case by simp
next
  case (Cons x xs)
  show ?case
  proof (cases "still_running c (interfere env i (world_of p))")
    case False
    then show ?thesis by (simp add: Let_def)
  next
    case True
    obtain r w1 where s: "sendMessage env a (msg_phone x) (message_text x) (media_path x)
                            (interfere env i (world_of p)) = (r, w1)"
      by (cases "sendMessage env a (msg_phone x) (message_text x) (media_path x)
                            (interfere env i (world_of p))")
    show ?thesis
    proof (cases r)
      case (Inl e)
      with True s Cons.prems show ?thesis
        by (simp add: Let_def Cons.IH)
    next
      case (Inr u)
      with True s Cons.prems show ?thesis
        by (simp add: Let_def Cons.IH)
    qed
  qed
qed

lemma marks_append: "marks (xs @ ys) = marks xs @ marks ys"
  by (simp add: marks_def map_filter_def)

lemma loop_cases:
  obtains (stop) "\<not> still_running c (interfere env i (world_of p))"
      "dispatch_loop env c a d i (x # xs) p = p\<lparr>stopped := True, world_of := interfere env i (world_of p)\<rparr>"
  | (sent) w1 where "still_running c (interfere env i (world_of p))"
      "sendMessage env a (msg_phone x) (message_text x) (media_path x) (interfere env i (world_of p)) = (Inr (), w1)"
      "dispatch_loop env c a d i (x # xs) p =
         dispatch_loop env c a d (Suc i) xs
           (p\<lparr>sentCount := sentCount p + 1,
              trace := trace p @ [MarkSent (msg_id x), Delay (d * 1000)],
              world_of := CampaignMessage_update (msg_id x)
                 (\<lambda>row. row\<lparr>msg_status := Sent, sent_at := Some (clock env i)\<rparr>) w1\<rparr>)"
  | (failed) e w1 where "still_running c (interfere env i (world_of p))"
      "sendMessage env a (msg_phone x) (message_text x) (media_path x) (interfere env i (world_of p)) = (Inl e, w1)"
      "dispatch_loop env c a d i (x # xs) p =
         dispatch_loop env c a d (Suc i) xs
           (p\<lparr>failedCount := failedCount p + 1,
              trace := trace p @ [MarkFailed (msg_id x) (error_text e)],
              world_of := CampaignMessage_update (msg_id x)
                 (\<lambda>row. row\<lparr>msg_status := Failed, error_message := Some (error_text e)\<rparr>) w1\<rparr>)"
proof (cases "still_running c (interfere env i (world_of p))")
  case False
  then show ?thesis using stop by (simp add: Let_def)
next
  case True
  obtain r w1 where s: "sendMessage env a (msg_phone x) (message_text x) (media_path x)
                          (interfere env i (world_of p)) = (r, w1)"
    by (cases "sendMessage env a (msg_phone x) (message_text x) (media_path x)
                          (interfere env i (world_of p))")
  show ?thesis
  proof (cases r)
    case (Inl e)
    with True s show ?thesis using failed [of e w1] by (simp add: Let_def)
  next
    case (Inr u)
    with True s show ?thesis using sent [of w1] by (simp add: Let_def)
  qed
qed

lemma loop_trace:
  "\<exists>t. trace (dispatch_loop env c a d i xs p) = trace p @ t
      \<and> delay_after_each_sent (d * 1000) t
      \<and> sentCount (dispatch_loop env c a d i xs p) =
          sentCount p + length (filter (\<lambda>e. marked e = None) t)"
proof (induction xs arbitrary: i p)
  case Nil
  show ?case by simp
next
  case (Cons x xs)
  show ?case
  proof (cases rule: loop_cases [of c env i p a d x xs])
    case stop
    then show ?thesis by (simp del: dispatch_loop.simps)
  next
    case (sent w1)
    let ?p = "p\<lparr>sentCount := sentCount p + 1,
              trace := trace p @ [MarkSent (msg_id x), Delay (d * 1000)],
              world_of := CampaignMessage_update (msg_id x)
                 (\<lambda>row. row\<lparr>msg_status := Sent, sent_at := Some (clock env i)\<rparr>) w1\<rparr>"
    from Cons.IH [of "Suc i" ?p] obtain t where
      t: "trace (dispatch_loop env c a d (Suc i) xs ?p) = trace ?p @ t"
         "delay_after_each_sent (d * 1000) t"
         "sentCount (dispatch_loop env c a d (Suc i) xs ?p) =
            sentCount ?p + length (filter (\<lambda>e. marked e = None) t)" by blast
    show ?thesis unfolding sent(3)
      by (rule exI [of _ "MarkSent (msg_id x) # Delay (d * 1000) # t"]) (use t in simp)
  next
    case (failed e w1)
    let ?p = "p\<lparr>failedCount := failedCount p + 1,
              trace := trace p @ [MarkFailed (msg_id x) (error_text e)],
              world_of := CampaignMessage_update (msg_id x)
                 (\<lambda>row. row\<lparr>msg_status := Failed, error_message := Some (error_text e)\<rparr>) w1\<rparr>"
    from Cons.IH [of "Suc i" ?p] obtain t where
      t: "trace (dispatch_loop env c a d (Suc i) xs ?p) = trace ?p @ t"
         "delay_after_each_sent (d * 1000) t"
         "sentCount (dispatch_loop env c a d (Suc i) xs ?p) =
            sentCount ?p + length (filter (\<lambda>e. marked e = None) t)" by blast
    show ?thesis unfolding failed(3)
      by (rule exI [of _ "MarkFailed (msg_id x) (error_text e) # t"]) (use t in simp)
  qed
qed

lemma Campaign_update_frame:
  "campaign_messages (Campaign_update n f w) = campaign_messages w"
  "sessions (Campaign_update n f w) = sessions w"
  "accounts (Campaign_update n f w) = accounts w"
  by (simp_all add: Campaign_update_def split: option.splits)

lemma bulk_cases:
  obtains (thrown) e where
      "\<not> (\<exists>c. campaigns w cid = Some c \<and> cmp_status c = Running
              \<and> accounts w (account_id c) \<noteq> None)"
      "sendBulkMessages env cid w =
         (Inl e, [], Campaign_update cid (\<lambda>row. row\<lparr>cmp_status := Cancelled\<rparr>) w)"
  | (ran) c w' where "campaigns w cid = Some c" "cmp_status c = Running"
      "accounts w (account_id c) \<noteq> None"
      "sendBulkMessages env cid w =
         (Inr (sentCount (dispatch_loop env cid (account_id c) (delay_seconds c) 0
                            (pending_of cid w) (new_pass w)),
               failedCount (dispatch_loop env cid (account_id c) (delay_seconds c) 0
                            (pending_of cid w) (new_pass w))),
          trace (dispatch_loop env cid (account_id c) (delay_seconds c) 0
                            (pending_of cid w) (new_pass w)), w')"
      "campaign_messages w' =
         campaign_messages (world_of (dispatch_loop env cid (account_id c) (delay_seconds c) 0
                            (pending_of cid w) (new_pass w)))"
proof (cases "campaigns w cid")
  case None
  then show ?thesis using thrown [of NotFoundOrNotRunning] by (simp add: sendBulkMessages_def)
next
  case (Some c)
  show ?thesis
  proof (cases "cmp_status c = Running")
    case False
    with Some show ?thesis using thrown [of NotFoundOrNotRunning]
      by (simp add: sendBulkMessages_def)
  next
    case True
    show ?thesis
    proof (cases "accounts w (account_id c) = None")
      case True
      with Some \<open>cmp_status c = Running\<close> show ?thesis using thrown [of NullAccount]
        by (simp add: sendBulkMessages_def)
    next
      case False
      with Some True show ?thesis
        by (intro ran [of c "snd (snd (sendBulkMessages env cid w))"])
           (auto simp: sendBulkMessages_def Let_def Campaign_update_frame)
    qed
  qed
qed

lemma still_running_cong: "campaigns v = campaigns v' \<Longrightarrow> still_running c v = still_running c v'"
  by (simp add: still_running_def)

lemma no_handle_cong: "sessions v = sessions v' \<Longrightarrow> no_handle env a v = no_handle env a v'"
  by (simp add: no_handle_def)

lemma after_send_running:
  "sendMessage env a ph body med v = (r, w1) \<Longrightarrow>
     still_running c (CampaignMessage_update n f w1) = still_running c v"
  using sendMessage_frame(1) [of env a ph body med v]
  by (simp add: still_running_def CampaignMessage_update_frame)

lemma after_send_offline:
  "sendMessage env a ph body med v = (r, w1) \<Longrightarrow>
     no_handle env b (CampaignMessage_update n f w1) = no_handle env b v"
  using sendMessage_frame(2) [of env a ph body med v]
  by (simp add: no_handle_def CampaignMessage_update_frame)

lemma after_send_account:
  "sendMessage env a ph body med v = (r, w1) \<Longrightarrow>
     accounts (CampaignMessage_update n f w1) = accounts v"
  using sendMessage_frame(4) [of env a ph body med v]
  by (simp add: CampaignMessage_update_def)

lemma loop_through:
  "\<not> stopped (dispatch_loop env c a d i xs p) \<Longrightarrow>
     marks (trace (dispatch_loop env c a d i xs p)) = marks (trace p) @ map msg_id xs
   \<and> sentCount (dispatch_loop env c a d i xs p) + failedCount (dispatch_loop env c a d i xs p) =
       sentCount p + failedCount p + length xs"
proof (induction xs arbitrary: i p)
  case Nil
  show ?case by simp
next
  case (Cons x xs)
  show ?case
  proof (cases rule: loop_cases [of c env i p a d x xs])
    case stop
    with Cons.prems show ?thesis by (simp del: dispatch_loop.simps)
  next
    case (sent w1)
    from Cons.prems have "\<not> stopped (dispatch_loop env c a d (Suc i) xs
           (p\<lparr>sentCount := sentCount p + 1,
              trace := trace p @ [MarkSent (msg_id x), Delay (d * 1000)],
              world_of := CampaignMessage_update (msg_id x)
                 (\<lambda>row. row\<lparr>msg_status := Sent, sent_at := Some (clock env i)\<rparr>) w1\<rparr>))"
      unfolding sent(3) .
    from Cons.IH [OF this] show ?thesis unfolding sent(3)
      by (simp add: marks_append) (simp add: marks_def map_filter_def)
  next
    case (failed e w1)
    from Cons.prems have "\<not> stopped (dispatch_loop env c a d (Suc i) xs
           (p\<lparr>failedCount := failedCount p + 1,
              trace := trace p @ [MarkFailed (msg_id x) (error_text e)],
              world_of := CampaignMessage_update (msg_id x)
                 (\<lambda>row. row\<lparr>msg_status := Failed, error_message := Some (error_text e)\<rparr>) w1\<rparr>))"
      unfolding failed(3) .
    from Cons.IH [OF this] show ?thesis unfolding failed(3)
      by (simp add: marks_append) (simp add: marks_def map_filter_def)
  qed
qed

lemma loop_running:
  assumes keep: "\<forall>i v. still_running c v \<longrightarrow> still_running c (interfere env i v)"
  shows "still_running c (world_of p) \<Longrightarrow>
           stopped (dispatch_loop env c a d i xs p) = stopped p"
proof (induction xs arbitrary: i p)
  case Nil
  show ?case by simp
next
  case (Cons x xs)
  from Cons.prems keep have run: "still_running c (interfere env i (world_of p))" by blast
  show ?case
  proof (cases rule: loop_cases [of c env i p a d x xs])
    case stop
    with run show ?thesis by simp
  next
    case (sent w1)
    show ?thesis unfolding sent(3)
      by (subst Cons.IH) (simp_all add: after_send_running [OF sent(2)] run)
  next
    case (failed e w1)
    show ?thesis unfolding failed(3)
      by (subst Cons.IH) (simp_all add: after_send_running [OF failed(2)] run)
  qed
qed

lemma mark_failed_rows:
  assumes "all_failed ids msg w1"
  shows "all_failed (insert n ids) msg
           (CampaignMessage_update n (\<lambda>row. row\<lparr>msg_status := Failed, error_message := Some msg\<rparr>) w1)"
  using assms by (auto simp: all_failed_def CampaignMessage_update_def)

lemma loop_offline:
  assumes keep: "\<forall>i v. still_running c v \<longrightarrow> still_running c (interfere env i v)"
      and off: "\<forall>i v. no_handle env a v \<longrightarrow> no_handle env a (interfere env i v)"
      and rows: "\<forall>i v. campaign_messages (interfere env i v) = campaign_messages v"
      and acct: "\<forall>i v. accounts v a \<noteq> None \<longrightarrow> accounts (interfere env i v) a \<noteq> None"
  shows "still_running c (world_of p) \<Longrightarrow> no_handle env a (world_of p) \<Longrightarrow>
         all_failed ids ''Account not connected'' (world_of p) \<Longrightarrow>
         accounts (world_of p) a \<noteq> None \<Longrightarrow>
           trace (dispatch_loop env c a d i xs p) =
             trace p @ map (\<lambda>m. MarkFailed (msg_id m) ''Account not connected'') xs
         \<and> failedCount (dispatch_loop env c a d i xs p) = failedCount p + length xs
         \<and> sentCount (dispatch_loop env c a d i xs p) = sentCount p
         \<and> all_failed (ids \<union> msg_id ` set xs) ''Account not connected''
             (world_of (dispatch_loop env c a d i xs p))"
proof (induction xs arbitrary: i p ids)
  case Nil
  then show ?case by simp
next
  case (Cons x xs)
  let ?v = "interfere env i (world_of p)"
  from Cons.prems keep off acct have run: "still_running c ?v" and offl: "no_handle env a ?v"
    and acc: "accounts ?v a \<noteq> None"
    by blast+
  from Cons.prems(3) rows have fl: "all_failed ids ''Account not connected'' ?v"
    by (simp add: all_failed_def)
  have snd_fail: "fst (sendMessage env a (msg_phone x) (message_text x) (media_path x) ?v) = Inl NotConnected"
    using sendMessage_offline [OF offl acc] .
  show ?case
  proof (cases rule: loop_cases [of c env i p a d x xs])
    case stop
    with run show ?thesis by simp
  next
    case (sent w1)
    with snd_fail show ?thesis by simp
  next
    case (failed e w1)
    with snd_fail have e: "e = NotConnected" by simp
    have w1: "campaign_messages w1 = campaign_messages ?v"
      using sendMessage_frame(3) [of env a "msg_phone x" "message_text x" "media_path x" ?v] failed(2)
      by simp
    let ?w = "CampaignMessage_update (msg_id x)
                 (\<lambda>row. row\<lparr>msg_status := Failed, error_message := Some ''Account not connected''\<rparr>) w1"
    have "all_failed ids ''Account not connected'' w1"
      using fl w1 by (simp add: all_failed_def)
    then have f2: "all_failed (insert (msg_id x) ids) ''Account not connected'' ?w"
      by (rule mark_failed_rows)
    have r2: "still_running c ?w" using after_send_running [OF failed(2)] run by simp
    have o2: "no_handle env a ?w" using after_send_offline [OF failed(2)] offl by simp
    have a2: "accounts ?w a \<noteq> None" using after_send_account [OF failed(2)] acc by simp
    let ?p = "p\<lparr>failedCount := failedCount p + 1,
              trace := trace p @ [MarkFailed (msg_id x) ''Account not connected''],
              world_of := ?w\<rparr>"
    have "trace (dispatch_loop env c a d (Suc i) xs ?p) =
             trace ?p @ map (\<lambda>m. MarkFailed (msg_id m) ''Account not connected'') xs
         \<and> failedCount (dispatch_loop env c a d (Suc i) xs ?p) = failedCount ?p + length xs
         \<and> sentCount (dispatch_loop env c a d (Suc i) xs ?p) = sentCount ?p
         \<and> all_failed (insert (msg_id x) ids \<union> msg_id ` set xs) ''Account not connected''
             (world_of (dispatch_loop env c a d (Suc i) xs ?p))"
      by (rule Cons.IH) (simp_all add: r2 o2 f2 a2)
    then show ?thesis unfolding failed(3) e by simp
  qed
qed

lemma loop_stays_running:
  assumes keep: "\<forall>i v. still_running c v \<longrightarrow> still_running c (interfere env i v)"
  shows "still_running c (world_of p) \<Longrightarrow>
           still_running c (world_of (dispatch_loop env c a d i xs p))"
proof (induction xs arbitrary: i p)
  case Nil
  then show ?case by simp
next
  case (Cons x xs)
  from Cons.prems keep have run: "still_running c (interfere env i (world_of p))" by blast
  show ?case
  proof (cases rule: loop_cases [of c env i p a d x xs])
    case stop
    with run show ?thesis by simp
  next
    case (sent w1)
    show ?thesis unfolding sent(3)
      by (rule Cons.IH) (simp add: after_send_running [OF sent(2)] run)
  next
    case (failed e w1)
    show ?thesis unfolding failed(3)
      by (rule Cons.IH) (simp add: after_send_running [OF failed(2)] run)
  qed
qed

lemma loop_counts:
  "failedCount p = length (filter is_failed (trace p)) \<Longrightarrow>
   sentCount p = length (filter is_sent (trace p)) \<Longrightarrow>
     failedCount (dispatch_loop env c a d i xs p) =
       length (filter is_failed (trace (dispatch_loop env c a d i xs p)))
   \<and> sentCount (dispatch_loop env c a d i xs p) =
       length (filter is_sent (trace (dispatch_loop env c a d i xs p)))"
proof (induction xs arbitrary: i p)
  case Nil
  then show ?case by simp
next
  case (Cons x xs)
  show ?case
  proof (cases rule: loop_cases [of c env i p a d x xs])
    case stop
    with Cons.prems show ?thesis by (simp del: dispatch_loop.simps)
  next
    case (sent w1)
    show ?thesis unfolding sent(3)
      by (rule Cons.IH) (use Cons.prems in simp_all)
  next
    case (failed e w1)
    show ?thesis unfolding failed(3)
      by (rule Cons.IH) (use Cons.prems in simp_all)
  qed
qed

lemma length_mark_events: "length (mark_events tr) = length (marks tr)"
  by (simp add: mark_events_def marks_def map_filter_def)

lemma mark_events_append: "mark_events (xs @ ys) = mark_events xs @ mark_events ys"
  by (simp add: mark_events_def)

lemma update_other_row:
  "msg_id r \<noteq> n \<Longrightarrow> r \<in> set (campaign_messages w1) \<Longrightarrow>
     r \<in> set (campaign_messages (CampaignMessage_update n f w1))"
  by (force simp: CampaignMessage_update_def)

lemma update_other_rows:
  assumes "\<forall>row \<in> set (campaign_messages w1). msg_id row = n \<longrightarrow> Q row"
      and "k \<noteq> n" and "\<forall>row. msg_id (f row) = msg_id row"
  shows "\<forall>row \<in> set (campaign_messages (CampaignMessage_update k f w1)). msg_id row = n \<longrightarrow> Q row"
  using assms by (auto simp: CampaignMessage_update_def)

lemma update_this_row:
  assumes "\<forall>row. Q (f row)"
  shows "\<forall>row \<in> set (campaign_messages (CampaignMessage_update n f w1)).
           msg_id row = n \<longrightarrow> msg_id (f row) = msg_id row \<longrightarrow> Q row"
  using assms by (auto simp: CampaignMessage_update_def)

lemma loop_keeps_row:
  assumes kept: "\<forall>i v. r \<in> set (campaign_messages v) \<longrightarrow>
                        r \<in> set (campaign_messages (interfere env i v))"
  shows "\<forall>x \<in> set xs. msg_id x \<noteq> msg_id r \<Longrightarrow> r \<in> set (campaign_messages (world_of p)) \<Longrightarrow>
           r \<in> set (campaign_messages (world_of (dispatch_loop env c a d i xs p)))"
proof (induction xs arbitrary: i p)
  case Nil
  then show ?case by simp
next
  case (Cons x xs)
  let ?v = "interfere env i (world_of p)"
  from Cons.prems kept have rv: "r \<in> set (campaign_messages ?v)" by blast
  from Cons.prems have ne: "msg_id r \<noteq> msg_id x" and rest: "\<forall>x \<in> set xs. msg_id x \<noteq> msg_id r"
    by auto
  have step: "r \<in> set (campaign_messages (CampaignMessage_update (msg_id x) f w1))"
    if "sendMessage env a (msg_phone x) (message_text x) (media_path x) ?v = (res, w1)" for res w1 f
  proof -
    have "campaign_messages w1 = campaign_messages ?v"
      using sendMessage_frame(3) [of env a "msg_phone x" "message_text x" "media_path x" ?v] that
      by simp
    with rv have "r \<in> set (campaign_messages w1)" by simp
    then show ?thesis using ne by (intro update_other_row)
  qed
  show ?case
  proof (cases rule: loop_cases [of c env i p a d x xs])
    case stop
    with rv show ?thesis by simp
  next
    case (sent w1)
    show ?thesis unfolding sent(3)
      by (rule Cons.IH [OF rest]) (simp add: step [OF sent(2)])
  next
    case (failed e w1)
    show ?thesis unfolding failed(3)
      by (rule Cons.IH [OF rest]) (simp add: step [OF failed(2)])
  qed
qed

lemma loop_keeps_rows:
  assumes rows: "\<forall>i v. campaign_messages (interfere env i v) = campaign_messages v"
  shows "\<forall>x \<in> set xs. msg_id x \<noteq> n \<Longrightarrow>
         \<forall>row \<in> set (campaign_messages (world_of p)). msg_id row = n \<longrightarrow> Q row \<Longrightarrow>
           \<forall>row \<in> set (campaign_messages (world_of (dispatch_loop env c a d i xs p))).
              msg_id row = n \<longrightarrow> Q row"
proof (induction xs arbitrary: i p)
  case Nil
  then show ?case by simp
next
  case (Cons x xs)
  let ?v = "interfere env i (world_of p)"
  from Cons.prems rows have qv: "\<forall>row \<in> set (campaign_messages ?v). msg_id row = n \<longrightarrow> Q row"
    by simp
  from Cons.prems have ne: "msg_id x \<noteq> n" and rest: "\<forall>x \<in> set xs. msg_id x \<noteq> n" by auto
  have step: "\<forall>row \<in> set (campaign_messages (CampaignMessage_update (msg_id x) f w1)).
                 msg_id row = n \<longrightarrow> Q row"
    if "sendMessage env a (msg_phone x) (message_text x) (media_path x) ?v = (res, w1)"
      and "\<forall>row. msg_id (f row) = msg_id row" for res w1 f
  proof -
    have "campaign_messages w1 = campaign_messages ?v"
      using sendMessage_frame(3) [of env a "msg_phone x" "message_text x" "media_path x" ?v] that(1)
      by simp
    with qv have "\<forall>row \<in> set (campaign_messages w1). msg_id row = n \<longrightarrow> Q row" by simp
    then show ?thesis using ne that(2) by (rule update_other_rows)
  qed
  show ?case
  proof (cases rule: loop_cases [of c env i p a d x xs])
    case stop
    with qv show ?thesis by simp
  next
    case (sent w1)
    show ?thesis unfolding sent(3)
      by (rule Cons.IH [OF rest]) (simp, rule step [OF sent(2)], simp)
  next
    case (failed e w1)
    show ?thesis unfolding failed(3)
      by (rule Cons.IH [OF rest]) (simp, rule step [OF failed(2)], simp)
  qed
qed

text \<open>
  The turn of one message \<open>m\<close> in a pass during which the campaign stays \<open>running\<close>: the
  mark it gets is decided by what \<open>sendMessage\<close> returns at that moment, and the rows
  with its id keep what that mark wrote while the rest of the rows are dispatched.
\<close>

lemma turn_of_message:
  assumes keep: "\<forall>i v. still_running c v \<longrightarrow> still_running c (interfere env i v)"
      and run: "still_running c (world_of p)" and ns: "\<not> stopped p"
      and res: "fst (sendMessage env a (msg_phone m) (message_text m) (media_path m)
                  (interfere env (i + length xs) (world_of (dispatch_loop env c a d i xs p)))) = res"
  shows "mark_events (trace (dispatch_loop env c a d i (xs @ m # rest) p))
           ! (length (mark_events (trace p)) + length xs) =
           (case res of Inl e \<Rightarrow> MarkFailed (msg_id m) (error_text e)
                      | Inr u \<Rightarrow> MarkSent (msg_id m))"
    and "(\<forall>i v. campaign_messages (interfere env i v) = campaign_messages v) \<Longrightarrow>
         \<forall>x \<in> set rest. msg_id x \<noteq> msg_id m \<Longrightarrow>
           (case res of
              Inl e \<Rightarrow> all_failed {msg_id m} (error_text e)
                         (world_of (dispatch_loop env c a d i (xs @ m # rest) p))
            | Inr u \<Rightarrow> all_sent {msg_id m}
                         (world_of (dispatch_loop env c a d i (xs @ m # rest) p)))"
proof -
  let ?q = "dispatch_loop env c a d i xs p"
  let ?j = "i + length xs"
  have nsq: "\<not> stopped ?q" using loop_running [OF keep run] ns by simp
  have runq: "still_running c (world_of ?q)" using loop_stays_running [OF keep run] .
  with keep have runv: "still_running c (interfere env ?j (world_of ?q))" by blast
  have whole: "dispatch_loop env c a d i (xs @ m # rest) p =
                 dispatch_loop env c a d ?j (m # rest) ?q"
    using loop_append [OF ns, of env c a d i xs "m # rest"] nsq by simp
  have len: "length (mark_events (trace ?q)) = length (mark_events (trace p)) + length xs"
    using loop_through [OF nsq] by (simp add: length_mark_events)
  have nth: "mark_events (trace (dispatch_loop env c a d (Suc ?j) rest p')) ! 
               (length (mark_events (trace p)) + length xs) = ev"
    if "trace p' = trace ?q @ ev # tl" "marked ev \<noteq> None" for p' ev tl
  proof -
    obtain t where "trace (dispatch_loop env c a d (Suc ?j) rest p') = trace p' @ t"
      using loop_trace [of env c a d "Suc ?j" rest p'] by blast
    then have "mark_events (trace (dispatch_loop env c a d (Suc ?j) rest p')) =
                 mark_events (trace ?q) @ ev # mark_events (tl @ t)"
      using that by (simp add: mark_events_def)
    then show ?thesis using len by (simp add: nth_append)
  qed
  have both: "mark_events (trace (dispatch_loop env c a d i (xs @ m # rest) p))
           ! (length (mark_events (trace p)) + length xs) =
           (case res of Inl e \<Rightarrow> MarkFailed (msg_id m) (error_text e)
                      | Inr u \<Rightarrow> MarkSent (msg_id m))
      \<and> ((\<forall>i v. campaign_messages (interfere env i v) = campaign_messages v) \<longrightarrow>
         (\<forall>x \<in> set rest. msg_id x \<noteq> msg_id m) \<longrightarrow>
           (case res of
              Inl e \<Rightarrow> all_failed {msg_id m} (error_text e)
                         (world_of (dispatch_loop env c a d i (xs @ m # rest) p))
            | Inr u \<Rightarrow> all_sent {msg_id m}
                         (world_of (dispatch_loop env c a d i (xs @ m # rest) p))))"
  proof (cases rule: loop_cases [of c env ?j ?q a d m rest])
    case stop
    with runv show ?thesis by simp
  next
    case (sent w1)
    let ?f = "\<lambda>row. row\<lparr>msg_status := Sent, sent_at := Some (clock env ?j)\<rparr>"
    let ?p = "?q\<lparr>sentCount := sentCount ?q + 1,
              trace := trace ?q @ [MarkSent (msg_id m), Delay (d * 1000)],
              world_of := CampaignMessage_update (msg_id m) ?f w1\<rparr>"
    from sent(2) res have r: "res = Inr ()" by simp
    have n: "mark_events (trace (dispatch_loop env c a d (Suc ?j) rest ?p)) !
               (length (mark_events (trace p)) + length xs) = MarkSent (msg_id m)"
      by (rule nth [of ?p _ "[Delay (d * 1000)]"]) simp_all
    have rows: "all_sent {msg_id m} (world_of (dispatch_loop env c a d (Suc ?j) rest ?p))"
      if rw: "\<forall>i v. campaign_messages (interfere env i v) = campaign_messages v"
        and ne: "\<forall>x \<in> set rest. msg_id x \<noteq> msg_id m"
    proof -
      have "\<forall>row \<in> set (campaign_messages (world_of ?p)).
              msg_id row = msg_id m \<longrightarrow> msg_status row = Sent"
        using update_this_row [of "\<lambda>row. msg_status row = Sent" ?f "msg_id m" w1] by simp
      from loop_keeps_rows [OF rw ne this] show ?thesis by (simp add: all_sent_def)
    qed
    show ?thesis unfolding whole sent(3) r using n rows by simp
  next
    case (failed e w1)
    let ?f = "\<lambda>row. row\<lparr>msg_status := Failed, error_message := Some (error_text e)\<rparr>"
    let ?p = "?q\<lparr>failedCount := failedCount ?q + 1,
              trace := trace ?q @ [MarkFailed (msg_id m) (error_text e)],
              world_of := CampaignMessage_update (msg_id m) ?f w1\<rparr>"
    from failed(2) res have r: "res = Inl e" by simp
    have n: "mark_events (trace (dispatch_loop env c a d (Suc ?j) rest ?p)) !
               (length (mark_events (trace p)) + length xs) = MarkFailed (msg_id m) (error_text e)"
      by (rule nth [of ?p _ "[]"]) simp_all
    have rows: "all_failed {msg_id m} (error_text e)
                  (world_of (dispatch_loop env c a d (Suc ?j) rest ?p))"
      if rw: "\<forall>i v. campaign_messages (interfere env i v) = campaign_messages v"
        and ne: "\<forall>x \<in> set rest. msg_id x \<noteq> msg_id m"
    proof -
      have "\<forall>row \<in> set (campaign_messages (world_of ?p)).
              msg_id row = msg_id m \<longrightarrow>
                msg_status row = Failed \<and> error_message row = Some (error_text e)"
        using update_this_row [of "\<lambda>row. msg_status row = Failed \<and> error_message row = Some (error_text e)"
                 ?f "msg_id m" w1] by simp
      from loop_keeps_rows [OF rw ne this] show ?thesis by (simp add: all_failed_def)
    qed
    show ?thesis unfolding whole failed(3) r using n rows by simp
  qed
  from both show "mark_events (trace (dispatch_loop env c a d i (xs @ m # rest) p))
           ! (length (mark_events (trace p)) + length xs) =
           (case res of Inl e \<Rightarrow> MarkFailed (msg_id m) (error_text e)
                      | Inr u \<Rightarrow> MarkSent (msg_id m))" by blast
  from both show "(\<forall>i v. campaign_messages (interfere env i v) = campaign_messages v) \<Longrightarrow>
         \<forall>x \<in> set rest. msg_id x \<noteq> msg_id m \<Longrightarrow>
           (case res of
              Inl e \<Rightarrow> all_failed {msg_id m} (error_text e)
                         (world_of (dispatch_loop env c a d i (xs @ m # rest) p))
            | Inr u \<Rightarrow> all_sent {msg_id m}
                         (world_of (dispatch_loop env c a d i (xs @ m # rest) p)))" by blast
qed

lemma pending_rows:
  "r \<in> set (pending_of cid w) \<Longrightarrow> r \<in> set (campaign_messages w) \<and> msg_status r = Pending"
  by (simp add: pending_of_def)

lemma example_pending:
  "pending_of 7 (campaign_world ph) = [example_message 1 ph, example_message 2 ''628002'']"
  "pending_of 7 offline_world = [example_message 1 ''628001'', example_message 2 ''628002'']"
  by (simp_all add: pending_of_def campaign_world_def offline_world_def example_message_def)

lemma example_run_sent:
  "fst (snd (sendBulkMessages example_env 7 (campaign_world ''628001''))) =
     [MarkSent 1, Delay 2000, MarkSent 2, Delay 2000]"
  by (simp add: accounts_def Account_update_def sendBulkMessages_def pending_of_def new_pass_def Let_def
        campaign_world_def example_world_def example_env_def example_campaign_def
        example_account_def example_message_def still_running_def sendMessage_def
        ActivityLog_create_def CampaignMessage_update_def Campaign_update_def)

lemma example_run_failed_first:
  "fst (snd (sendBulkMessages example_env 7 (campaign_world ''000''))) =
     [MarkFailed 1 ''not on WhatsApp'', MarkSent 2, Delay 2000]"
  by (simp add: accounts_def Account_update_def sendBulkMessages_def pending_of_def new_pass_def Let_def
        campaign_world_def example_world_def example_env_def example_campaign_def
        example_account_def example_message_def still_running_def sendMessage_def
        ActivityLog_create_def CampaignMessage_update_def Campaign_update_def)

text \<open>
  A pass over two pending messages with \<open>delay_seconds = 2\<close>: when both are sent the pass
  ends with a delay after the last message; when the first fails, no delay separates it
  from the second. Neither trace is paced as the specification words it.
\<close>

theorem delay_after_final_message:
  "fst (snd (sendBulkMessages example_env 7 (campaign_world ''628001''))) =
     [MarkSent 1, Delay 2000, MarkSent 2, Delay 2000]
 \<and> \<not> spec_delay_between_messages 2000
       (fst (snd (sendBulkMessages example_env 7 (campaign_world ''628001''))))
 \<and> fst (snd (sendBulkMessages example_env 7 (campaign_world ''000''))) =
     [MarkFailed 1 ''not on WhatsApp'', MarkSent 2, Delay 2000]
 \<and> \<not> spec_delay_between_messages 2000
       (fst (snd (sendBulkMessages example_env 7 (campaign_world ''000''))))"
  by (simp add: example_run_failed_first) (simp add: example_run_sent)

text \<open>
  C3, as the loop has it. In every dispatch pass each message marked \<open>sent\<close> is followed
  at once by a delay of \<open>delay_seconds * 1000\<close> ms, the last message of the pass
  included, and a message marked \<open>failed\<close> is followed by no delay; so the number of
  delays of a pass is its \<open>sentCount\<close>.
\<close>

theorem delay_follows_each_sent_message:
  assumes "campaigns w cid = Some c"
  shows "delay_after_each_sent (delay_seconds c * 1000) (fst (snd (sendBulkMessages env cid w)))
       \<and> (\<forall>s f. fst (sendBulkMessages env cid w) = Inr (s, f) \<longrightarrow>
            length (filter (\<lambda>e. marked e = None) (fst (snd (sendBulkMessages env cid w)))) = s)"
proof (cases rule: bulk_cases [where env = env and cid = cid and w = w])
  case (thrown e)
  then show ?thesis by simp
next
  case (ran c' w')
  with assms have c: "c' = c" by simp
  from loop_trace [of env cid "account_id c" "delay_seconds c" 0 "pending_of cid w" "new_pass w"]
  show ?thesis using ran(4) by (auto simp: c new_pass_def)
qed

theorem delay_follows_each_sent_message_witness:
  "campaigns (campaign_world ''000'') 7 = Some example_campaign
 \<and> delay_after_each_sent 2000 [MarkFailed 1 ''not on WhatsApp'', MarkSent 2, Delay 2000]"
proof -
  have c: "campaigns (campaign_world ''000'') 7 = Some example_campaign"
    by (simp add: campaign_world_def)
  show ?thesis
    using delay_follows_each_sent_message [OF c, of example_env] example_run_failed_first c
    by (simp add: example_campaign_def)
qed

text \<open>
  C7. \<open>sendMessage\<close> for an account that has a row and no registered handle fails with
  \<open>Account not connected\<close>. In a dispatch pass during which the campaign stays
  \<open>running\<close>, a failure of \<open>sendMessage\<close> never ends the pass: the pass returns normally,
  every pending message is marked exactly once, in order, \<open>sentCount\<close> and
  \<open>failedCount\<close> are the numbers of \<open>sent\<close> and \<open>failed\<close> marks, and their sum is the
  number of pending messages; a row that is not one of them, and that no other task
  changes, is left as it is. Whatever \<open>sendMessage\<close> throws at the turn of a message
  \<open>m\<close>, the mark of \<open>m\<close> is \<open>failed\<close> with the text of that error, and (the ids being
  distinct and no other task writing message rows) the row of \<open>m\<close> ends \<open>failed\<close> with
  that text; when it returns, the mark is \<open>sent\<close> and the row ends \<open>sent\<close>. If the
  account has no handle throughout, every pending message is marked \<open>failed\<close> with the
  text \<open>Account not connected\<close> and \<open>failedCount\<close> is their number.
\<close>

theorem send_failure_does_not_abort:
  assumes c: "campaigns w cid = Some c" "cmp_status c = Running" "accounts w (account_id c) \<noteq> None"
      and keep: "\<forall>i v. still_running cid v \<longrightarrow> still_running cid (interfere env i v)"
  shows "(\<forall>b phone body media v.
            no_handle env b v \<and> accounts v b \<noteq> None \<longrightarrow>
              fst (sendMessage env b phone body media v) = Inl NotConnected)
       \<and> (\<exists>s f. fst (sendBulkMessages env cid w) = Inr (s, f)
              \<and> s + f = length (pending_of cid w)
              \<and> f = length (filter is_failed (fst (snd (sendBulkMessages env cid w))))
              \<and> s = length (filter is_sent (fst (snd (sendBulkMessages env cid w)))))
       \<and> marks (fst (snd (sendBulkMessages env cid w))) = map msg_id (pending_of cid w)
       \<and> (\<forall>xs m rest e.
             pending_of cid w = xs @ m # rest
             \<and> fst (sendMessage env (account_id c) (msg_phone m) (message_text m) (media_path m)
                     (interfere env (length xs)
                        (world_of (dispatch_loop env cid (account_id c) (delay_seconds c) 0 xs
                                     (new_pass w))))) = Inl e \<longrightarrow>
               mark_events (fst (snd (sendBulkMessages env cid w))) ! length xs =
                 MarkFailed (msg_id m) (error_text e)
             \<and> ((\<forall>i v. campaign_messages (interfere env i v) = campaign_messages v)
                  \<and> distinct (map msg_id (pending_of cid w)) \<longrightarrow>
                 all_failed {msg_id m} (error_text e) (snd (snd (sendBulkMessages env cid w)))))
       \<and> (\<forall>xs m rest u.
             pending_of cid w = xs @ m # rest
             \<and> fst (sendMessage env (account_id c) (msg_phone m) (message_text m) (media_path m)
                     (interfere env (length xs)
                        (world_of (dispatch_loop env cid (account_id c) (delay_seconds c) 0 xs
                                     (new_pass w))))) = Inr u \<longrightarrow>
               mark_events (fst (snd (sendBulkMessages env cid w))) ! length xs =
                 MarkSent (msg_id m)
             \<and> ((\<forall>i v. campaign_messages (interfere env i v) = campaign_messages v)
                  \<and> distinct (map msg_id (pending_of cid w)) \<longrightarrow>
                 all_sent {msg_id m} (snd (snd (sendBulkMessages env cid w)))))
       \<and> ((\<forall>i v. no_handle env (account_id c) v \<longrightarrow> no_handle env (account_id c) (interfere env i v))
            \<and> (\<forall>i v. campaign_messages (interfere env i v) = campaign_messages v)
            \<and> (\<forall>i v. accounts v (account_id c) \<noteq> None \<longrightarrow>
                       accounts (interfere env i v) (account_id c) \<noteq> None)
            \<and> no_handle env (account_id c) w \<longrightarrow>
              fst (sendBulkMessages env cid w) = Inr (0, length (pending_of cid w))
            \<and> fst (snd (sendBulkMessages env cid w)) =
                map (\<lambda>m. MarkFailed (msg_id m) ''Account not connected'') (pending_of cid w)
            \<and> all_failed (msg_id ` set (pending_of cid w)) ''Account not connected''
                (snd (snd (sendBulkMessages env cid w))))
       \<and> (\<forall>r. r \<in> set (campaign_messages w)
              \<and> msg_id r \<notin> msg_id ` set (pending_of cid w)
              \<and> (\<forall>i v. r \<in> set (campaign_messages v) \<longrightarrow>
                         r \<in> set (campaign_messages (interfere env i v))) \<longrightarrow>
              r \<in> set (campaign_messages (snd (snd (sendBulkMessages env cid w)))))"
proof (cases rule: bulk_cases [where env = env and cid = cid and w = w])
  case (thrown e)
  with c show ?thesis by blast
next
  case (ran c' w')
  with c have cc: "c' = c" by simp
  let ?a = "account_id c"
  let ?d = "delay_seconds c"
  let ?q = "dispatch_loop env cid ?a ?d 0 (pending_of cid w) (new_pass w)"
  have run: "still_running cid (world_of (new_pass w))"
    using c by (simp add: still_running_def new_pass_def)
  have ns: "\<not> stopped (new_pass w)" by (simp add: new_pass_def)
  have "\<not> stopped ?q" using loop_running [OF keep run] by (simp add: new_pass_def)
  from loop_through [OF this]
  have thr: "marks (trace ?q) = map msg_id (pending_of cid w)"
      "sentCount ?q + failedCount ?q = length (pending_of cid w)"
    by (simp_all add: new_pass_def marks_def map_filter_def)
  have cnt: "failedCount ?q = length (filter is_failed (trace ?q))"
      "sentCount ?q = length (filter is_sent (trace ?q))"
    using loop_counts [where p = "new_pass w" and env = env and c = cid and a = ?a and d = ?d
                         and i = 0 and xs = "pending_of cid w"]
    by (simp_all add: new_pass_def)
  have res: "sendBulkMessages env cid w = (Inr (sentCount ?q, failedCount ?q), trace ?q, w')"
      "campaign_messages w' = campaign_messages (world_of ?q)"
    using ran(4,5) by (simp_all add: cc)
  have rows_eq: "all_failed ids msg w' = all_failed ids msg (world_of ?q)"
      "all_sent ids w' = all_sent ids (world_of ?q)" for ids msg
    by (simp_all add: all_failed_def all_sent_def res(2))
  have turn_f: "mark_events (trace ?q) ! length xs = MarkFailed (msg_id m) (error_text e)
             \<and> ((\<forall>i v. campaign_messages (interfere env i v) = campaign_messages v)
                  \<and> distinct (map msg_id (pending_of cid w)) \<longrightarrow>
                 all_failed {msg_id m} (error_text e) (world_of ?q))"
    if sp: "pending_of cid w = xs @ m # rest"
      and fl: "fst (sendMessage env ?a (msg_phone m) (message_text m) (media_path m)
                     (interfere env (length xs)
                        (world_of (dispatch_loop env cid ?a ?d 0 xs (new_pass w))))) = Inl e"
    for xs m rest e
  proof -
    have fl': "fst (sendMessage env ?a (msg_phone m) (message_text m) (media_path m)
                     (interfere env (0 + length xs)
                        (world_of (dispatch_loop env cid ?a ?d 0 xs (new_pass w))))) = Inl e"
      using fl by simp
    note t = turn_of_message [OF keep run ns fl', where rest = rest]
    have ne: "\<forall>x \<in> set rest. msg_id x \<noteq> msg_id m" if "distinct (map msg_id (pending_of cid w))"
      using that unfolding sp by (fastforce simp: image_iff)
    show ?thesis using t(1) t(2) ne unfolding sp by (simp add: new_pass_def mark_events_def)
  qed
  have turn_s: "mark_events (trace ?q) ! length xs = MarkSent (msg_id m)
             \<and> ((\<forall>i v. campaign_messages (interfere env i v) = campaign_messages v)
                  \<and> distinct (map msg_id (pending_of cid w)) \<longrightarrow>
                 all_sent {msg_id m} (world_of ?q))"
    if sp: "pending_of cid w = xs @ m # rest"
      and ok: "fst (sendMessage env ?a (msg_phone m) (message_text m) (media_path m)
                     (interfere env (length xs)
                        (world_of (dispatch_loop env cid ?a ?d 0 xs (new_pass w))))) = Inr u"
    for xs m rest u
  proof -
    have ok': "fst (sendMessage env ?a (msg_phone m) (message_text m) (media_path m)
                     (interfere env (0 + length xs)
                        (world_of (dispatch_loop env cid ?a ?d 0 xs (new_pass w))))) = Inr u"
      using ok by simp
    note t = turn_of_message [OF keep run ns ok', where rest = rest]
    have ne: "\<forall>x \<in> set rest. msg_id x \<noteq> msg_id m" if "distinct (map msg_id (pending_of cid w))"
      using that unfolding sp by (fastforce simp: image_iff)
    show ?thesis using t(1) t(2) ne unfolding sp by (simp add: new_pass_def mark_events_def)
  qed
  have off: "fst (sendBulkMessages env cid w) = Inr (0, length (pending_of cid w))
            \<and> fst (snd (sendBulkMessages env cid w)) =
                map (\<lambda>m. MarkFailed (msg_id m) ''Account not connected'') (pending_of cid w)
            \<and> all_failed (msg_id ` set (pending_of cid w)) ''Account not connected''
                (snd (snd (sendBulkMessages env cid w)))"
    if o: "\<forall>i v. no_handle env ?a v \<longrightarrow> no_handle env ?a (interfere env i v)"
      and r: "\<forall>i v. campaign_messages (interfere env i v) = campaign_messages v"
      and ac: "\<forall>i v. accounts v ?a \<noteq> None \<longrightarrow> accounts (interfere env i v) ?a \<noteq> None"
      and n: "no_handle env ?a w"
  proof -
    have n': "no_handle env ?a (world_of (new_pass w))" using n by (simp add: new_pass_def)
    have e: "all_failed {} ''Account not connected'' (world_of (new_pass w))"
      by (simp add: all_failed_def)
    have a': "accounts (world_of (new_pass w)) ?a \<noteq> None" using c(3) by (simp add: new_pass_def)
    from loop_offline [OF keep o r ac run n' e a', of ?d 0 "pending_of cid w"]
    show ?thesis
      by (simp add: res new_pass_def all_failed_def)
  qed
  have A: "\<forall>b phone body media v.
            no_handle env b v \<and> accounts v b \<noteq> None \<longrightarrow>
              fst (sendMessage env b phone body media v) = Inl NotConnected"
    by (simp add: sendMessage_offline)
  have B: "\<exists>s f. fst (sendBulkMessages env cid w) = Inr (s, f)
              \<and> s + f = length (pending_of cid w)
              \<and> f = length (filter is_failed (fst (snd (sendBulkMessages env cid w))))
              \<and> s = length (filter is_sent (fst (snd (sendBulkMessages env cid w))))"
    using thr(2) cnt by (simp add: res)
  have C: "marks (fst (snd (sendBulkMessages env cid w))) = map msg_id (pending_of cid w)"
    using thr(1) by (simp add: res)
  have D: "\<forall>xs m rest e.
             pending_of cid w = xs @ m # rest
             \<and> fst (sendMessage env ?a (msg_phone m) (message_text m) (media_path m)
                     (interfere env (length xs)
                        (world_of (dispatch_loop env cid ?a ?d 0 xs (new_pass w))))) = Inl e \<longrightarrow>
               mark_events (fst (snd (sendBulkMessages env cid w))) ! length xs =
                 MarkFailed (msg_id m) (error_text e)
             \<and> ((\<forall>i v. campaign_messages (interfere env i v) = campaign_messages v)
                  \<and> distinct (map msg_id (pending_of cid w)) \<longrightarrow>
                 all_failed {msg_id m} (error_text e) (snd (snd (sendBulkMessages env cid w))))"
    using turn_f by (simp add: res(1) rows_eq)
  have E: "\<forall>xs m rest u.
             pending_of cid w = xs @ m # rest
             \<and> fst (sendMessage env ?a (msg_phone m) (message_text m) (media_path m)
                     (interfere env (length xs)
                        (world_of (dispatch_loop env cid ?a ?d 0 xs (new_pass w))))) = Inr u \<longrightarrow>
               mark_events (fst (snd (sendBulkMessages env cid w))) ! length xs =
                 MarkSent (msg_id m)
             \<and> ((\<forall>i v. campaign_messages (interfere env i v) = campaign_messages v)
                  \<and> distinct (map msg_id (pending_of cid w)) \<longrightarrow>
                 all_sent {msg_id m} (snd (snd (sendBulkMessages env cid w))))"
    using turn_s by (simp add: res(1) rows_eq)
  have F: "\<forall>r. r \<in> set (campaign_messages w)
              \<and> msg_id r \<notin> msg_id ` set (pending_of cid w)
              \<and> (\<forall>i v. r \<in> set (campaign_messages v) \<longrightarrow>
                         r \<in> set (campaign_messages (interfere env i v))) \<longrightarrow>
              r \<in> set (campaign_messages (snd (snd (sendBulkMessages env cid w))))"
  proof (intro allI impI, elim conjE)
    fix r
    assume r: "r \<in> set (campaign_messages w)"
      and ni: "msg_id r \<notin> msg_id ` set (pending_of cid w)"
      and k: "\<forall>i v. r \<in> set (campaign_messages v) \<longrightarrow>
                     r \<in> set (campaign_messages (interfere env i v))"
    have ne: "\<forall>x \<in> set (pending_of cid w). msg_id x \<noteq> msg_id r"
    proof (intro ballI notI)
      fix x assume "x \<in> set (pending_of cid w)" and "msg_id x = msg_id r"
      then have "msg_id r \<in> msg_id ` set (pending_of cid w)" by (metis imageI)
      with ni show False by simp
    qed
    have "r \<in> set (campaign_messages (world_of (new_pass w)))" using r by (simp add: new_pass_def)
    from loop_keeps_row [OF k ne this, of cid ?a ?d 0]
    show "r \<in> set (campaign_messages (snd (snd (sendBulkMessages env cid w))))"
      by (simp add: res)
  qed
  from A B C D E off F show ?thesis by blast
qed

theorem send_failure_does_not_abort_witness:
  "fst (sendBulkMessages example_env 7 offline_world) = Inr (0, 2)
 \<and> fst (snd (sendBulkMessages example_env 7 offline_world)) =
     [MarkFailed 1 ''Account not connected'', MarkFailed 2 ''Account not connected'']
 \<and> fst (sendMessage example_env 1 ''628001'' (Some ''hello'') None offline_world) = Inl NotConnected
 \<and> mark_events (fst (snd (sendBulkMessages example_env 7 (campaign_world ''000'')))) ! 0 =
     MarkFailed 1 ''not on WhatsApp''
 \<and> all_failed {1} ''not on WhatsApp'' (snd (snd (sendBulkMessages example_env 7 (campaign_world ''000''))))
 \<and> mark_events (fst (snd (sendBulkMessages example_env 7 (campaign_world ''000'')))) ! 1 =
     MarkSent 2"
proof -
  have keep: "\<forall>i v. still_running 7 v \<longrightarrow> still_running 7 (interfere example_env i v)"
    by (simp add: example_env_def)
  have r: "\<forall>i v. campaign_messages (interfere example_env i v) = campaign_messages v"
    by (simp add: example_env_def)
  have part1: "fst (sendBulkMessages example_env 7 offline_world) = Inr (0, 2)
     \<and> fst (snd (sendBulkMessages example_env 7 offline_world)) =
         [MarkFailed 1 ''Account not connected'', MarkFailed 2 ''Account not connected'']
     \<and> fst (sendMessage example_env 1 ''628001'' (Some ''hello'') None offline_world) = Inl NotConnected"
  proof -
    have c: "campaigns offline_world 7 = Some example_campaign" "cmp_status example_campaign = Running"
        "accounts offline_world (account_id example_campaign) \<noteq> None"
      by (simp_all add: accounts_def offline_world_def campaign_world_def example_campaign_def
            example_world_def)
    have o: "\<forall>i v. no_handle example_env (account_id example_campaign) v \<longrightarrow>
                no_handle example_env (account_id example_campaign) (interfere example_env i v)"
      by (simp add: example_env_def)
    have ac: "\<forall>i v. accounts v (account_id example_campaign) \<noteq> None \<longrightarrow>
                accounts (interfere example_env i v) (account_id example_campaign) \<noteq> None"
      by (simp add: example_env_def)
    have n: "no_handle example_env (account_id example_campaign) offline_world"
      by (simp add: no_handle_def offline_world_def example_env_def)
    have n1: "no_handle example_env 1 offline_world" "accounts offline_world (1::nat) \<noteq> None"
      by (simp_all add: no_handle_def accounts_def offline_world_def campaign_world_def
            example_world_def example_env_def)
    note t = send_failure_does_not_abort [OF c keep]
    have "fst (sendMessage example_env 1 ''628001'' (Some ''hello'') None offline_world) = Inl NotConnected"
      using t n1 by blast
    moreover have "fst (sendBulkMessages example_env 7 offline_world) = Inr (0, 2)
        \<and> fst (snd (sendBulkMessages example_env 7 offline_world)) =
         [MarkFailed 1 ''Account not connected'', MarkFailed 2 ''Account not connected'']"
      using t o r ac n by (simp add: example_pending example_message_def)
    ultimately show ?thesis by blast
  qed
  have part2: "mark_events (fst (snd (sendBulkMessages example_env 7 (campaign_world ''000'')))) ! 0 =
       MarkFailed 1 ''not on WhatsApp''
     \<and> all_failed {1} ''not on WhatsApp'' (snd (snd (sendBulkMessages example_env 7 (campaign_world ''000''))))
     \<and> mark_events (fst (snd (sendBulkMessages example_env 7 (campaign_world ''000'')))) ! 1 =
       MarkSent 2"
  proof -
    let ?w = "campaign_world ''000''"
    let ?m1 = "example_message 1 ''000''"
    let ?m2 = "example_message 2 ''628002''"
    have c: "campaigns ?w 7 = Some example_campaign" "cmp_status example_campaign = Running"
        "accounts ?w (account_id example_campaign) \<noteq> None"
      by (simp_all add: accounts_def campaign_world_def example_campaign_def example_world_def)
    have sp1: "pending_of 7 ?w = [] @ ?m1 # [?m2]" by (simp add: example_pending)
    have sp2: "pending_of 7 ?w = [?m1] @ ?m2 # []" by (simp add: example_pending)
    have d: "distinct (map msg_id (pending_of 7 ?w))"
      by (simp add: example_pending example_message_def)
    have f1: "fst (sendMessage example_env (account_id example_campaign) (msg_phone ?m1)
                 (message_text ?m1) (media_path ?m1)
                 (interfere example_env (length ([] :: campaign_message list))
                    (world_of (dispatch_loop example_env 7 (account_id example_campaign)
                       (delay_seconds example_campaign) 0 [] (new_pass ?w))))) =
               Inl (TransportFailed ''not on WhatsApp'')"
      by (simp add: sendMessage_def ActivityLog_create_def accounts_def example_env_def
            example_campaign_def example_message_def campaign_world_def example_world_def
            new_pass_def Let_def)
    have f2: "fst (sendMessage example_env (account_id example_campaign) (msg_phone ?m2)
                 (message_text ?m2) (media_path ?m2)
                 (interfere example_env (length [?m1])
                    (world_of (dispatch_loop example_env 7 (account_id example_campaign)
                       (delay_seconds example_campaign) 0 [?m1] (new_pass ?w))))) =
               Inr ()"
      by (simp add: sendMessage_def ActivityLog_create_def accounts_def example_env_def
            example_campaign_def example_message_def campaign_world_def example_world_def
            new_pass_def still_running_def CampaignMessage_update_def Let_def)
    note t = send_failure_does_not_abort [OF c keep]
    from t have D: "\<forall>xs m rest e.
             pending_of 7 ?w = xs @ m # rest
             \<and> fst (sendMessage example_env (account_id example_campaign) (msg_phone m)
                     (message_text m) (media_path m)
                     (interfere example_env (length xs)
                        (world_of (dispatch_loop example_env 7 (account_id example_campaign)
                                     (delay_seconds example_campaign) 0 xs (new_pass ?w))))) = Inl e \<longrightarrow>
               mark_events (fst (snd (sendBulkMessages example_env 7 ?w))) ! length xs =
                 MarkFailed (msg_id m) (error_text e)
             \<and> ((\<forall>i v. campaign_messages (interfere example_env i v) = campaign_messages v)
                  \<and> distinct (map msg_id (pending_of 7 ?w)) \<longrightarrow>
                 all_failed {msg_id m} (error_text e) (snd (snd (sendBulkMessages example_env 7 ?w))))"
      by blast
    from t have E: "\<forall>xs m rest u.
             pending_of 7 ?w = xs @ m # rest
             \<and> fst (sendMessage example_env (account_id example_campaign) (msg_phone m)
                     (message_text m) (media_path m)
                     (interfere example_env (length xs)
                        (world_of (dispatch_loop example_env 7 (account_id example_campaign)
                                     (delay_seconds example_campaign) 0 xs (new_pass ?w))))) = Inr u \<longrightarrow>
               mark_events (fst (snd (sendBulkMessages example_env 7 ?w))) ! length xs =
                 MarkSent (msg_id m)
             \<and> ((\<forall>i v. campaign_messages (interfere example_env i v) = campaign_messages v)
                  \<and> distinct (map msg_id (pending_of 7 ?w)) \<longrightarrow>
                 all_sent {msg_id m} (snd (snd (sendBulkMessages example_env 7 ?w))))"
      by blast
    have id1: "msg_id ?m1 = 1" "msg_id ?m2 = 2" by (simp_all add: example_message_def)
    note X = D [rule_format, OF conjI [OF sp1 f1]]
    note Y = E [rule_format, OF conjI [OF sp2 f2]]
    have "mark_events (fst (snd (sendBulkMessages example_env 7 ?w))) ! 0 =
            MarkFailed 1 ''not on WhatsApp''"
      using X [THEN conjunct1] by (simp only: id1 error_text.simps list.size)
    moreover
    have "all_failed {1} ''not on WhatsApp'' (snd (snd (sendBulkMessages example_env 7 ?w)))"
      using X [THEN conjunct2, rule_format, OF conjI [OF r d]]
      by (simp only: id1 error_text.simps)
    moreover
    have "mark_events (fst (snd (sendBulkMessages example_env 7 ?w))) ! 1 = MarkSent 2"
      using Y [THEN conjunct1] by (simp only: id1) simp
    ultimately show ?thesis by blast
  qed
  from part1 part2 show ?thesis by blast
qed

text \<open>
  C8. Let the pending rows be \<open>xs @ m # rest\<close>, let the loop run through \<open>xs\<close> without
  stopping, and let the status re-check made before \<open>m\<close> find the campaign no longer
  \<open>running\<close>. Then the trace of the whole pass is the trace of the run over \<open>xs\<close>: the
  rows marked are exactly those of \<open>xs\<close>, nothing is sent, marked or delayed for \<open>m\<close> or
  \<open>rest\<close>, and the message rows the pass leaves are the rows that re-check saw. The ids
  being distinct, every row of \<open>m # rest\<close> that the other tasks leave as it is, is still
  in the table as it was when the pass began, with status \<open>pending\<close>.
\<close>

theorem pause_stops_pass:
  assumes c: "campaigns w cid = Some c" "cmp_status c = Running" "accounts w (account_id c) \<noteq> None"
      and split: "pending_of cid w = xs @ m # rest"
      and through: "\<not> stopped (dispatch_loop env cid (account_id c) (delay_seconds c) 0 xs (new_pass w))"
      and paused: "\<not> still_running cid
                      (interfere env (length xs)
                         (world_of (dispatch_loop env cid (account_id c) (delay_seconds c) 0 xs
                                      (new_pass w))))"
  shows "fst (snd (sendBulkMessages env cid w)) =
           trace (dispatch_loop env cid (account_id c) (delay_seconds c) 0 xs (new_pass w))
       \<and> marks (fst (snd (sendBulkMessages env cid w))) = map msg_id xs
       \<and> campaign_messages (snd (snd (sendBulkMessages env cid w))) =
           campaign_messages
             (interfere env (length xs)
                (world_of (dispatch_loop env cid (account_id c) (delay_seconds c) 0 xs (new_pass w))))
       \<and> (distinct (map msg_id (pending_of cid w)) \<longrightarrow>
            (\<forall>r \<in> set (m # rest).
               (\<forall>i v. r \<in> set (campaign_messages v) \<longrightarrow>
                      r \<in> set (campaign_messages (interfere env i v))) \<longrightarrow>
               r \<in> set (campaign_messages w)
               \<and> r \<in> set (campaign_messages (snd (snd (sendBulkMessages env cid w))))
               \<and> msg_status r = Pending))"
proof (cases rule: bulk_cases [where env = env and cid = cid and w = w])
  case (thrown e)
  with c show ?thesis by blast
next
  case (ran c' w')
  with c have cc: "c' = c" by simp
  let ?q = "dispatch_loop env cid (account_id c) (delay_seconds c) 0 xs (new_pass w)"
  have n: "\<not> stopped (new_pass w)" by (simp add: new_pass_def)
  have "dispatch_loop env cid (account_id c) (delay_seconds c) 0 (pending_of cid w) (new_pass w) =
          dispatch_loop env cid (account_id c) (delay_seconds c) (length xs) (m # rest) ?q"
    unfolding split using loop_append [OF n, of env cid "account_id c" "delay_seconds c" 0 xs "m # rest"] through
    by simp
  also have "\<dots> = ?q\<lparr>stopped := True, world_of := interfere env (length xs) (world_of ?q)\<rparr>"
    using paused by (simp add: Let_def)
  finally have whole: "dispatch_loop env cid (account_id c) (delay_seconds c) 0 (pending_of cid w) (new_pass w) =
      ?q\<lparr>stopped := True, world_of := interfere env (length xs) (world_of ?q)\<rparr>" .
  have m: "marks (trace ?q) = map msg_id xs"
    using loop_through [OF through] by (simp add: new_pass_def marks_def map_filter_def)
  have first: "fst (snd (sendBulkMessages env cid w)) = trace ?q
       \<and> marks (fst (snd (sendBulkMessages env cid w))) = map msg_id xs
       \<and> campaign_messages (snd (snd (sendBulkMessages env cid w))) =
           campaign_messages (interfere env (length xs) (world_of ?q))"
    using ran(4,5) m by (simp add: cc whole)
  have kept: "r \<in> set (campaign_messages w)
               \<and> r \<in> set (campaign_messages (snd (snd (sendBulkMessages env cid w))))
               \<and> msg_status r = Pending"
    if d: "distinct (map msg_id (pending_of cid w))" and r: "r \<in> set (m # rest)"
      and k: "\<forall>i v. r \<in> set (campaign_messages v) \<longrightarrow> r \<in> set (campaign_messages (interfere env i v))"
    for r
  proof -
    from r have "r \<in> set (pending_of cid w)" unfolding split by auto
    from pending_rows [OF this] have p: "r \<in> set (campaign_messages w)" "msg_status r = Pending"
      by simp_all
    have ne: "\<forall>x \<in> set xs. msg_id x \<noteq> msg_id r"
      using d r unfolding split by (fastforce simp: image_iff)
    have "r \<in> set (campaign_messages (world_of (new_pass w)))" using p(1) by (simp add: new_pass_def)
    from loop_keeps_row [OF k ne this]
    have "r \<in> set (campaign_messages (world_of ?q))" .
    with k have "r \<in> set (campaign_messages (interfere env (length xs) (world_of ?q)))" by blast
    with first p show ?thesis by simp
  qed
  from first kept show ?thesis by blast
qed

theorem pause_stops_pass_witness:
  "marks (fst (snd (sendBulkMessages pausing_env 7 (campaign_world ''628001'')))) = [1]
 \<and> map msg_status (campaign_messages (snd (snd (sendBulkMessages pausing_env 7 (campaign_world ''628001'')))))
     = [Sent, Pending]
 \<and> example_message 2 ''628002''
     \<in> set (campaign_messages (snd (snd (sendBulkMessages pausing_env 7 (campaign_world ''628001'')))))"
proof -
  let ?w = "campaign_world ''628001''"
  let ?q = "dispatch_loop pausing_env 7 (account_id example_campaign) (delay_seconds example_campaign) 0
              [example_message 1 ''628001''] (new_pass ?w)"
  have c: "campaigns ?w 7 = Some example_campaign" "cmp_status example_campaign = Running"
      "accounts ?w (account_id example_campaign) \<noteq> None"
    by (simp_all add: accounts_def campaign_world_def example_campaign_def example_world_def)
  have split: "pending_of 7 ?w = [example_message 1 ''628001''] @ example_message 2 ''628002'' # []"
    by (simp add: example_pending)
  have q: "?q = \<lparr>sentCount = 1, failedCount = 0, trace = [MarkSent 1, Delay 2000], stopped = False,
                 world_of = world_of ?q\<rparr>"
    by (simp add: new_pass_def Let_def pausing_env_def example_env_def still_running_def
          campaign_world_def example_campaign_def example_message_def sendMessage_def
          ActivityLog_create_def accounts_def example_world_def)
  have rows: "map msg_status (campaign_messages (world_of ?q)) = [Sent, Pending]"
     and st: "campaigns (world_of ?q) 7 = Some example_campaign"
    by (simp_all add: new_pass_def Let_def pausing_env_def example_env_def still_running_def
          campaign_world_def example_campaign_def example_message_def sendMessage_def
          ActivityLog_create_def CampaignMessage_update_def accounts_def example_world_def)
  have through: "\<not> stopped ?q" by (subst q) simp
  have "\<not> still_running 7 (interfere pausing_env (length [example_message 1 ''628001'']) v)"
    if "campaigns v 7 = Some example_campaign" for v :: "nat world"
    using that by (simp add: pausing_env_def example_env_def still_running_def Campaign_update_def)
  from this [OF st]
  have paused: "\<not> still_running 7 (interfere pausing_env (length [example_message 1 ''628001'']) (world_of ?q))" .
  have same: "campaign_messages (interfere pausing_env i v) = campaign_messages v"
    for v :: "nat world" and i
    by (simp add: pausing_env_def example_env_def Campaign_update_frame)
  have ids: "map msg_id [example_message 1 ''628001''] = [1]"
    by (simp add: example_message_def)
  have d: "distinct (map msg_id (pending_of 7 ?w))"
    by (simp add: example_pending example_message_def)
  note r = pause_stops_pass [OF c split through paused]
  have "marks (fst (snd (sendBulkMessages pausing_env 7 ?w))) = [1]"
    by (simp only: r [THEN conjunct2, THEN conjunct1] ids)
  moreover have "map msg_status (campaign_messages (snd (snd (sendBulkMessages pausing_env 7 ?w))))
      = [Sent, Pending]"
    by (simp only: r [THEN conjunct2, THEN conjunct2, THEN conjunct1] same rows)
  moreover have "example_message 2 ''628002''
      \<in> set (campaign_messages (snd (snd (sendBulkMessages pausing_env 7 ?w))))"
    using r [THEN conjunct2, THEN conjunct2, THEN conjunct2] d same by simp
  ultimately show ?thesis by blast
qed

text \<open>
  C10. \<open>sendBulkMessages\<close> for a campaign that does not exist or is not \<open>running\<close> throws
  \<open>Campaign not found or not running\<close>, and its \<open>catch\<close> sets the status of the campaign
  row, if there is one, to \<open>cancelled\<close>, whatever it was; no message row is touched.
\<close>

theorem not_running_cancels:
  assumes "campaigns w cid = None \<or> (\<exists>c. campaigns w cid = Some c \<and> cmp_status c \<noteq> Running)"
  shows "fst (sendBulkMessages env cid w) = Inl NotFoundOrNotRunning
       \<and> campaigns (snd (snd (sendBulkMessages env cid w))) cid =
           map_option (\<lambda>c. c\<lparr>cmp_status := Cancelled\<rparr>) (campaigns w cid)
       \<and> campaign_messages (snd (snd (sendBulkMessages env cid w))) = campaign_messages w
       \<and> fst (snd (sendBulkMessages env cid w)) = []"
  using assms
  by (auto simp: sendBulkMessages_def Campaign_update_def)

theorem not_running_cancels_witness:
  "map_option cmp_status (campaigns paused_world 7) = Some Paused
 \<and> fst (sendBulkMessages example_env 7 paused_world) = Inl NotFoundOrNotRunning
 \<and> map_option cmp_status (campaigns (snd (snd (sendBulkMessages example_env 7 paused_world))) 7)
     = Some Cancelled"
proof -
  have c: "campaigns paused_world 7 = Some (example_campaign\<lparr>cmp_status := Paused\<rparr>)"
    by (simp add: paused_world_def)
  then have "campaigns paused_world 7 = None
      \<or> (\<exists>c. campaigns paused_world 7 = Some c \<and> cmp_status c \<noteq> Running)" by simp
  from not_running_cancels [OF this, of example_env] c show ?thesis by simp
qed

end
